theory Spec2Isabelle
  imports Complex_Main
begin

section \<open>JavaScript values\<close>

text \<open>
  The two source files, \<^verbatim>\<open>services/binance.js\<close> (ingestion) and
  \<^verbatim>\<open>minion/hopper-mq.js\<close> (consumption), work on values that come out of
  \<^verbatim>\<open>JSON.parse\<close>. A JavaScript number is an IEEE double: a finite value, one of
  the two infinities, or NaN. The operations the code applies to numbers (remainder,
  comparison, \<^verbatim>\<open>Math.max\<close>, \<^verbatim>\<open>Math.min\<close>) are exact on doubles, so a finite
  number is modelled by the real it denotes. The sign of zero is not modelled
  (\<^verbatim>\<open>-0 === 0\<close> holds in JavaScript).
\<close>

datatype jsnum = NaN | NegInf | Fin real | PosInf

datatype jsval =
    JUndefined
  | JNull
  | JBool bool
  | JNum jsnum
  | JStr string
  | JArr "jsval list"
  | JObj "(string \<times> jsval) list"

text \<open>
  Built-ins of the host whose results depend on number syntax or on serialisation are
  parameters of the model: every theorem holds for any such functions.
  \<open>JSON_parse\<close> returns \<open>None\<close> where \<^verbatim>\<open>JSON.parse\<close> throws a SyntaxError.
\<close>

record host =
  JSON_parse :: "string \<Rightarrow> jsval option"
  JSON_stringify :: "jsval \<Rightarrow> string"
  StringToNumber :: "string \<Rightarrow> jsnum"
  NumberToString :: "jsnum \<Rightarrow> string"
  parseFloat_text :: "string \<Rightarrow> jsnum"
  process_pid :: jsnum

text \<open>
  Property read \<^verbatim>\<open>v.k\<close>. Reading a property of \<^verbatim>\<open>undefined\<close> or \<^verbatim>\<open>null\<close>
  throws a TypeError (\<open>None\<close>). The keys the source reads (\<^verbatim>\<open>stream\<close>, \<^verbatim>\<open>data\<close>,
  \<^verbatim>\<open>eventType\<close> and the one-letter field names of the exchange) are not members of
  any built-in prototype, so on a value that is not an object with that key the read
  gives \<^verbatim>\<open>undefined\<close>.
\<close>

definition field :: "(string \<times> jsval) list \<Rightarrow> string \<Rightarrow> jsval" where
  "field kvs k = (case map_of kvs k of None \<Rightarrow> JUndefined | Some v \<Rightarrow> v)"

fun get :: "jsval \<Rightarrow> string \<Rightarrow> jsval option" where
  "get JUndefined k = None"
| "get JNull k = None"
| "get (JObj kvs) k = Some (field kvs k)"
| "get v k = Some JUndefined"

text \<open>Truthiness, as tested by \<^verbatim>\<open>if (x)\<close> and \<^verbatim>\<open>!x\<close>.\<close>

fun truthy :: "jsval \<Rightarrow> bool" where
  "truthy JUndefined = False"
| "truthy JNull = False"
| "truthy (JBool b) = b"
| "truthy (JNum n) = (n \<noteq> NaN \<and> n \<noteq> Fin 0)"
| "truthy (JStr s) = (s \<noteq> [])"
| "truthy (JArr xs) = True"
| "truthy (JObj kvs) = True"

text \<open>
  Conversion to a string, as done by a template literal and by \<^verbatim>\<open>parseFloat\<close>.
  An object that came out of \<^verbatim>\<open>JSON.parse\<close> has no callable property of its own, so
  one with a key \<^verbatim>\<open>toString\<close> of its own cannot be converted (TypeError, \<open>None\<close>);
  any other object converts through \<^verbatim>\<open>Object.prototype.toString\<close>. An array
  converts through \<^verbatim>\<open>Array.prototype.join\<close>, which writes \<^verbatim>\<open>undefined\<close> and
  \<^verbatim>\<open>null\<close> elements as the empty string.
\<close>

fun ToString :: "host \<Rightarrow> jsval \<Rightarrow> string option"
  and join_elems :: "host \<Rightarrow> jsval list \<Rightarrow> string option" where
  "ToString H JUndefined = Some ''undefined''"
| "ToString H JNull = Some ''null''"
| "ToString H (JBool b) = Some (if b then ''true'' else ''false'')"
| "ToString H (JNum n) = Some (NumberToString H n)"
| "ToString H (JStr s) = Some s"
| "ToString H (JArr xs) = join_elems H xs"
| "ToString H (JObj kvs) =
     (if ''toString'' \<in> fst ` set kvs then None else Some ''[object Object]'')"
| "join_elems H [] = Some ''''"
| "join_elems H (x # xs) =
     (case (if x = JUndefined \<or> x = JNull then Some '''' else ToString H x) of
        None \<Rightarrow> None
      | Some s \<Rightarrow>
          (if xs = [] then Some s
           else (case join_elems H xs of None \<Rightarrow> None | Some r \<Rightarrow> Some (s @ '','' @ r))))"

text \<open>Conversion to a number (\<^verbatim>\<open>ToNumber\<close>), as done by \<^verbatim>\<open>%\<close> and \<^verbatim>\<open>Math.max\<close>.\<close>

fun ToNumber :: "host \<Rightarrow> jsval \<Rightarrow> jsnum option" where
  "ToNumber H JUndefined = Some NaN"
| "ToNumber H JNull = Some (Fin 0)"
| "ToNumber H (JBool b) = Some (if b then Fin 1 else Fin 0)"
| "ToNumber H (JNum n) = Some n"
| "ToNumber H (JStr s) = Some (StringToNumber H s)"
| "ToNumber H v = map_option (StringToNumber H) (ToString H v)"

definition parseFloat :: "host \<Rightarrow> jsval \<Rightarrow> jsnum option" where
  "parseFloat H v = map_option (parseFloat_text H) (ToString H v)"

subsection \<open>Arithmetic and comparison\<close>

text \<open>The order of the doubles; NaN compares with nothing.\<close>

fun num_less :: "jsnum \<Rightarrow> jsnum \<Rightarrow> bool" where
  "num_less NaN b = False"
| "num_less a NaN = False"
| "num_less NegInf b = (b \<noteq> NegInf)"
| "num_less (Fin x) (Fin y) = (x < y)"
| "num_less (Fin x) PosInf = True"
| "num_less (Fin x) NegInf = False"
| "num_less PosInf b = False"

definition Math_max :: "jsnum \<Rightarrow> jsnum \<Rightarrow> jsnum" where
  "Math_max a b = (if a = NaN \<or> b = NaN then NaN else if num_less a b then b else a)"

definition Math_min :: "jsnum \<Rightarrow> jsnum \<Rightarrow> jsnum" where
  "Math_min a b = (if a = NaN \<or> b = NaN then NaN else if num_less b a then b else a)"

text \<open>
  The remainder \<^verbatim>\<open>n % d\<close>: the quotient is truncated toward zero; a finite dividend
  is its own remainder by an infinity; every other case is NaN.
\<close>

definition truncate_real :: "real \<Rightarrow> int" where
  "truncate_real x = (if 0 \<le> x then \<lfloor>x\<rfloor> else \<lceil>x\<rceil>)"

fun js_rem :: "jsnum \<Rightarrow> jsnum \<Rightarrow> jsnum" where
  "js_rem (Fin x) (Fin y) =
     (if y = 0 then NaN else Fin (x - y * of_int (truncate_real (x / y))))"
| "js_rem (Fin x) PosInf = Fin x"
| "js_rem (Fin x) NegInf = Fin x"
| "js_rem n d = NaN"

text \<open>Strict equality of two numbers (\<^verbatim>\<open>===\<close>): NaN equals nothing.\<close>

definition num_eq :: "jsnum \<Rightarrow> jsnum \<Rightarrow> bool" where
  "num_eq a b = (a \<noteq> NaN \<and> a = b)"

text \<open>
  Strings compare by code units. A \<open>char\<close> is one code unit below 256, which covers
  the digits, letters and punctuation of the exchange's number syntax.
\<close>

fun str_less :: "string \<Rightarrow> string \<Rightarrow> bool" where
  "str_less [] [] = False"
| "str_less [] (y # ys) = True"
| "str_less (x # xs) [] = False"
| "str_less (x # xs) (y # ys) =
     ((of_char x :: nat) < of_char y \<or> (x = y \<and> str_less xs ys))"

text \<open>
  The relational operators on values: both operands are converted to primitives (an
  array or object becomes its string); two strings compare as strings, anything else
  as numbers. \<open>None\<close> is a TypeError raised by a conversion.
\<close>

fun ToPrimitive :: "host \<Rightarrow> jsval \<Rightarrow> jsval option" where
  "ToPrimitive H (JArr xs) = map_option JStr (ToString H (JArr xs))"
| "ToPrimitive H (JObj kvs) = map_option JStr (ToString H (JObj kvs))"
| "ToPrimitive H v = Some v"

fun prim_less :: "host \<Rightarrow> jsval \<Rightarrow> jsval \<Rightarrow> bool" where
  "prim_less H (JStr a) (JStr b) = str_less a b"
| "prim_less H a b =
     (case (ToNumber H a, ToNumber H b) of
        (Some x, Some y) \<Rightarrow> num_less x y
      | _ \<Rightarrow> False)"

definition js_less :: "host \<Rightarrow> jsval \<Rightarrow> jsval \<Rightarrow> bool option" where
  "js_less H a b =
     (case (ToPrimitive H a, ToPrimitive H b) of
        (Some pa, Some pb) \<Rightarrow> Some (prim_less H pa pb)
      | _ \<Rightarrow> None)"

definition js_greater :: "host \<Rightarrow> jsval \<Rightarrow> jsval \<Rightarrow> bool option" where
  "js_greater H a b = js_less H b a"

section \<open>Ingestion: \<^verbatim>\<open>services/binance.js\<close>\<close>

subsection \<open>State of the module\<close>

text \<open>
  \<^verbatim>\<open>intervals\<close> is the frozen list of window sizes. \<^verbatim>\<open>highPrices\<close> and
  \<^verbatim>\<open>lowPrices\<close> are the first two of the objects that \<^verbatim>\<open>Array.from\<close> builds, each
  from the same \<^verbatim>\<open>Object.fromEntries\<close> call; their property names are the
  intervals, so each is a map keyed by the interval.
\<close>

definition intervals :: "jsnum list" where
  "intervals =
     [Fin 5, Fin 10, Fin 15, Fin 30, Fin 60, Fin 900, Fin 1800, Fin 3600, Fin 86400,
      Fin 604800, Fin 2592000, Fin 7776000, Fin 15552000, Fin 31536000, PosInf]"

definition price_entries :: "(jsnum \<times> jsval) list" where
  "price_entries =
     map (\<lambda>interval. (interval, JNum (if interval = PosInf then NegInf else PosInf)))
       intervals"

record state =
  highPrices :: "jsnum \<rightharpoonup> jsval"
  lowPrices :: "jsnum \<rightharpoonup> jsval"
  succK :: nat
  succT :: nat
  failK :: nat
  failT :: nat

definition initial_state :: state where
  "initial_state =
     \<lparr>highPrices = map_of price_entries, lowPrices = map_of price_entries,
      succK = 0, succT = 0, failK = 0, failT = 0\<rparr>"

text \<open>Reading \<^verbatim>\<open>highPrices[interval]\<close>: a missing property reads as \<^verbatim>\<open>undefined\<close>.\<close>

definition cell :: "(jsnum \<rightharpoonup> jsval) \<Rightarrow> jsnum \<Rightarrow> jsval" where
  "cell m k = (case m k of None \<Rightarrow> JUndefined | Some v \<Rightarrow> v)"

subsection \<open>Effects on the collaborators\<close>

text \<open>
  A call of a collaborator is recorded as an effect, in call order:
  \<^item> \<open>SendQueue payload priority delay kind\<close> is
    \<^verbatim>\<open>rabbit.sendQueue(env.wsBinance, Buffer.from(payload), priority, delay, cb)\<close>, where
    \<open>kind\<close> says whether \<open>cb\<close> is the callback of the trade or of the kline path;
  \<^item> \<open>Multi channel score member lo hi\<close> is the transaction
    \<^verbatim>\<open>multi().zadd(channel, score, member).zremrangebyscore(channel, lo, hi).exec()\<close>;
  \<^item> \<open>Pipeline k1 v1 k2 v2\<close> is \<^verbatim>\<open>pipeline().set(k1, v1).set(k2, v2).exec()\<close>;
  \<^item> \<open>Logger_error text\<close> is \<^verbatim>\<open>logger.error(text)\<close>.
  A function of the source returns or throws; effects made before a throw stay made.
\<close>

datatype kind = Trade | Kline

datatype effect =
    SendQueue string nat nat kind
  | Multi string jsval string int int
  | Pipeline string string string string
  | Logger_error string

datatype completion = Returned | Threw

subsection \<open>Extrema of a trade\<close>

text \<open>
  The loop at the head of \<^verbatim>\<open>processTrade\<close>. The test \<^verbatim>\<open>timestamp % interval === 0\<close>
  converts the timestamp to a number; \<^verbatim>\<open>Math.max\<close> and \<^verbatim>\<open>Math.min\<close> convert the
  stored value.
\<close>

fun sample_intervals :: "host \<Rightarrow> jsval \<Rightarrow> jsnum \<Rightarrow> jsnum list \<Rightarrow> state \<Rightarrow> state \<times> completion" where
  "sample_intervals H timestamp price [] st = (st, Returned)"
| "sample_intervals H timestamp price (interval # rest) st =
     (case ToNumber H timestamp of
        None \<Rightarrow> (st, Threw)
      | Some t \<Rightarrow>
          if num_eq (js_rem t interval) (Fin 0) then
            (case ToNumber H (cell (highPrices st) interval) of
               None \<Rightarrow> (st, Threw)
             | Some h \<Rightarrow>
                 let st1 = st\<lparr>highPrices := (highPrices st)(interval \<mapsto> JNum (Math_max h price))\<rparr>
                 in (case ToNumber H (cell (lowPrices st1) interval) of
                       None \<Rightarrow> (st1, Threw)
                     | Some l \<Rightarrow>
                         sample_intervals H timestamp price rest
                           (st1\<lparr>lowPrices := (lowPrices st1)(interval \<mapsto> JNum (Math_min l price))\<rparr>)))
          else sample_intervals H timestamp price rest st)"

subsection \<open>\<^verbatim>\<open>processTrade\<close>\<close>

text \<open>A property read on a value already known not to be \<^verbatim>\<open>undefined\<close> or \<^verbatim>\<open>null\<close>.\<close>

definition read :: "jsval \<Rightarrow> string \<Rightarrow> jsval" where
  "read v k = (case get v k of None \<Rightarrow> JUndefined | Some x \<Rightarrow> x)"

definition tradeObject :: "host \<Rightarrow> jsval \<Rightarrow> jsnum \<Rightarrow> jsnum \<Rightarrow> jsval" where
  "tradeObject H trade price quantity =
     JObj [(''subId'', JNum (process_pid H)),
           (''exchange'', JStr ''binance''),
           (''eventType'', read trade ''e''),
           (''eventTime'', read trade ''E''),
           (''symbol'', read trade ''s''),
           (''tradeId'', read trade ''t''),
           (''price'', JNum price),
           (''quantity'', JNum quantity),
           (''buyerOrderId'', read trade ''b''),
           (''sellerOrderId'', read trade ''a''),
           (''tradeTime'', read trade ''T''),
           (''isBuyerMarketMaker'', read trade ''m''),
           (''timestamp'', read trade ''E'')]"

text \<open>
  The synchronous part of \<^verbatim>\<open>processTrade\<close>, up to the call of \<^verbatim>\<open>exec()\<close>;
  \<open>now\<close> is the value of \<^verbatim>\<open>Date.now()\<close>.
\<close>

definition processTrade :: "host \<Rightarrow> int \<Rightarrow> jsval \<Rightarrow> state \<Rightarrow> state \<times> effect list \<times> completion" where
  "processTrade H now trade st =
     (case get trade ''E'' of
        None \<Rightarrow> (st, [], Threw)
      | Some timestamp \<Rightarrow>
     (case parseFloat H (read trade ''p'') of
        None \<Rightarrow> (st, [], Threw)
      | Some price \<Rightarrow>
     (case sample_intervals H timestamp price intervals st of
        (st1, Threw) \<Rightarrow> (st1, [], Threw)
      | (st1, Returned) \<Rightarrow>
     (case parseFloat H (read trade ''q'') of
        None \<Rightarrow> (st1, [], Threw)
      | Some quantity \<Rightarrow>
          let payload = JSON_stringify H (tradeObject H trade price quantity);
              enqueue = SendQueue payload 0 0 Trade
          in (case ToString H (read trade ''s'') of
                None \<Rightarrow> (st1, [enqueue], Threw)
              | Some s \<Rightarrow>
                  (st1,
                   [enqueue,
                    Multi (''trade:'' @ s @ '':binance'') timestamp payload 0 (now - 60 * 60 * 1000)],
                   Returned))))))"

text \<open>
  The callback given to \<^verbatim>\<open>rabbit.sendQueue\<close>; \<open>err\<close> is \<open>None\<close> when the callback's
  argument is falsy. The trade path and the kline path differ in the counters only.
\<close>

fun sendQueue_callback :: "kind \<Rightarrow> string option \<Rightarrow> state \<Rightarrow> state \<times> effect list" where
  "sendQueue_callback Trade None st = (st\<lparr>succT := succT st + 1\<rparr>, [])"
| "sendQueue_callback Trade (Some err) st =
     ((st\<lparr>failT := failT st + 1\<rparr>)\<lparr>succT := succT st + 1\<rparr>, [Logger_error err])"
| "sendQueue_callback Kline None st = (st\<lparr>succK := succK st + 1\<rparr>, [])"
| "sendQueue_callback Kline (Some err) st =
     ((st\<lparr>failK := failK st + 1\<rparr>)\<lparr>succK := succK st + 1\<rparr>, [Logger_error err])"

text \<open>
  The \<^verbatim>\<open>then\<close> callback of the trade's transaction, run with the state of that
  later moment: one pipeline of two \<^verbatim>\<open>set\<close> commands for each interval that passes
  the same test as in the head loop, then the second \<^verbatim>\<open>sendQueue\<close>.
\<close>

definition snapshot_write :: "host \<Rightarrow> string \<Rightarrow> state \<Rightarrow> jsnum \<Rightarrow> effect" where
  "snapshot_write H s st interval =
     (let highPriceObject = JObj [(''interval'', JNum interval), (''price'', cell (highPrices st) interval)];
          lowPriceObject = JObj [(''interval'', JNum interval), (''price'', cell (lowPrices st) interval)];
          highPriceChannel = ''high:'' @ NumberToString H interval @ '':'' @ s @ '':binance'';
          lowPriceChannel = ''low:'' @ NumberToString H interval @ '':'' @ s @ '':binance''
      in Pipeline highPriceChannel (JSON_stringify H highPriceObject)
           lowPriceChannel (JSON_stringify H lowPriceObject))"

fun snapshot_loop :: "host \<Rightarrow> jsval \<Rightarrow> jsval \<Rightarrow> state \<Rightarrow> jsnum list \<Rightarrow> effect list \<times> completion" where
  "snapshot_loop H timestamp symbol st [] = ([], Returned)"
| "snapshot_loop H timestamp symbol st (interval # rest) =
     (case ToNumber H timestamp of
        None \<Rightarrow> ([], Threw)
      | Some t \<Rightarrow>
          if num_eq (js_rem t interval) (Fin 0) then
            (case ToString H symbol of
               None \<Rightarrow> ([], Threw)
             | Some s \<Rightarrow>
                 (case snapshot_loop H timestamp symbol st rest of
                    (effs, c) \<Rightarrow> (snapshot_write H s st interval # effs, c)))
          else snapshot_loop H timestamp symbol st rest)"

definition processTrade_then :: "host \<Rightarrow> jsval \<Rightarrow> string \<Rightarrow> state \<Rightarrow> effect list \<times> completion" where
  "processTrade_then H trade payload st =
     (case snapshot_loop H (read trade ''E'') (read trade ''s'') st intervals of
        (effs, Threw) \<Rightarrow> (effs, Threw)
      | (effs, Returned) \<Rightarrow> (effs @ [SendQueue payload 0 300 Trade], Returned))"

text \<open>
  The promise of \<^verbatim>\<open>exec()\<close> settles: \<open>None\<close> is fulfilment, \<open>Some message\<close> a
  rejection with that error message. \<^verbatim>\<open>.then(f).catch(g)\<close> runs \<open>g\<close> on a rejection
  of \<^verbatim>\<open>exec()\<close> and on a throw of \<open>f\<close>; \<open>g\<close> logs and throws again. The message of
  an error thrown by \<open>f\<close> is a TypeError text of the engine, a parameter here.
\<close>

definition processTrade_settled ::
    "host \<Rightarrow> string \<Rightarrow> jsval \<Rightarrow> string \<Rightarrow> string option \<Rightarrow> state \<Rightarrow> effect list \<times> completion" where
  "processTrade_settled H type_error trade payload outcome st =
     (case outcome of
        Some message \<Rightarrow> ([Logger_error (''Error processing trade: '' @ message)], Threw)
      | None \<Rightarrow>
          (case processTrade_then H trade payload st of
             (effs, Returned) \<Rightarrow> (effs, Returned)
           | (effs, Threw) \<Rightarrow>
               (effs @ [Logger_error (''Error processing trade: '' @ type_error)], Threw)))"

subsection \<open>\<^verbatim>\<open>processKline\<close>\<close>

text \<open>Strict equality \<^verbatim>\<open>interval === v\<close> of a number with a value: only a number can be equal.\<close>

fun strict_equal :: "jsnum \<Rightarrow> jsval \<Rightarrow> bool" where
  "strict_equal interval (JNum n) = num_eq interval n"
| "strict_equal interval v = False"

text \<open>
  The update of the extrema in \<^verbatim>\<open>processKline\<close>. \<^verbatim>\<open>findIndex\<close> gives an index
  other than \<open>-1\<close> exactly when \<open>find\<close> gives an interval; \<^verbatim>\<open>klineData.i\<close> is then
  that same number, so \<^verbatim>\<open>highPrices[klineData.i]\<close> is the entry of that interval.
  The comparisons and the assignments use the raw \<^verbatim>\<open>klineData.h\<close> and
  \<^verbatim>\<open>klineData.l\<close>.
\<close>

definition kline_extrema :: "host \<Rightarrow> jsval \<Rightarrow> state \<Rightarrow> state \<times> completion" where
  "kline_extrema H klineData st =
     (case find (\<lambda>interval. strict_equal interval (read klineData ''i'')) intervals of
        None \<Rightarrow> (st, Returned)
      | Some i \<Rightarrow>
          let highPrice = cell (highPrices st) i;
              lowPrice = cell (lowPrices st) i
          in (case js_greater H (read klineData ''h'') highPrice of
                None \<Rightarrow> (st, Threw)
              | Some higher \<Rightarrow>
                  let st1 = (if higher
                             then st\<lparr>highPrices := (highPrices st)(i \<mapsto> read klineData ''h'')\<rparr>
                             else st)
                  in (case js_less H (read klineData ''l'') lowPrice of
                        None \<Rightarrow> (st1, Threw)
                      | Some lower \<Rightarrow>
                          (if lower
                           then st1\<lparr>lowPrices := (lowPrices st1)(i \<mapsto> read klineData ''l'')\<rparr>
                           else st1,
                           Returned))))"

text \<open>
  The object literal of \<^verbatim>\<open>processKline\<close>; its seven \<^verbatim>\<open>parseFloat\<close> calls run in
  the order of the fields, and the first that throws ends the function.
\<close>

definition klineObject :: "host \<Rightarrow> jsval \<Rightarrow> jsval \<Rightarrow> jsval option" where
  "klineObject H kline klineData =
     (case parseFloat H (read klineData ''o'') of None \<Rightarrow> None | Some openPrice \<Rightarrow>
     (case parseFloat H (read klineData ''h'') of None \<Rightarrow> None | Some high \<Rightarrow>
     (case parseFloat H (read klineData ''l'') of None \<Rightarrow> None | Some low \<Rightarrow>
     (case parseFloat H (read klineData ''c'') of None \<Rightarrow> None | Some closePrice \<Rightarrow>
     (case parseFloat H (read klineData ''v'') of None \<Rightarrow> None | Some volume \<Rightarrow>
     (case parseFloat H (read klineData ''q'') of None \<Rightarrow> None | Some quoteAssetVolume \<Rightarrow>
     (case parseFloat H (read klineData ''V'') of None \<Rightarrow> None | Some baseAssetVolume \<Rightarrow>
        Some (JObj [(''subId'', JNum (process_pid H)),
                    (''exchange'', JStr ''binance''),
                    (''eventType'', read kline ''e''),
                    (''eventTime'', read klineData ''t''),
                    (''symbol'', read klineData ''s''),
                    (''interval'', read klineData ''i''),
                    (''open'', JNum openPrice),
                    (''high'', JNum high),
                    (''low'', JNum low),
                    (''close'', JNum closePrice),
                    (''volume'', JNum volume),
                    (''trades'', read klineData ''n''),
                    (''isFinal'', read klineData ''x''),
                    (''quoteAssetVolume'', JNum quoteAssetVolume),
                    (''baseAssetVolume'', JNum baseAssetVolume),
                    (''timestamp'', read klineData ''T'')]))))))))"

definition processKline :: "host \<Rightarrow> int \<Rightarrow> jsval \<Rightarrow> state \<Rightarrow> state \<times> effect list \<times> completion" where
  "processKline H now kline st =
     (case get kline ''k'' of
        None \<Rightarrow> (st, [], Threw)
      | Some klineData \<Rightarrow>
     (case get klineData ''t'' of
        None \<Rightarrow> (st, [], Threw)
      | Some eventTime \<Rightarrow>
     (case klineObject H kline klineData of
        None \<Rightarrow> (st, [], Threw)
      | Some object \<Rightarrow>
     (case kline_extrema H klineData st of
        (st1, Threw) \<Rightarrow> (st1, [], Threw)
      | (st1, Returned) \<Rightarrow>
          let payload = JSON_stringify H object;
              enqueue = SendQueue payload 0 300 Kline
          in (case ToString H (read klineData ''s'') of
                None \<Rightarrow> (st1, [enqueue], Threw)
              | Some s \<Rightarrow>
             (case ToString H (read klineData ''i'') of
                None \<Rightarrow> (st1, [enqueue], Threw)
              | Some i \<Rightarrow>
                  (st1,
                   [enqueue,
                    Multi (''kline:'' @ s @ '':'' @ i @ '':binance'') (read klineData ''T'') payload
                      0 (now - 60 * 60 * 1000)],
                   Returned)))))))"

text \<open>The kline's transaction has an empty \<^verbatim>\<open>then\<close>; its \<^verbatim>\<open>catch\<close> logs and throws again.\<close>

definition processKline_settled :: "string option \<Rightarrow> effect list \<times> completion" where
  "processKline_settled outcome =
     (case outcome of
        None \<Rightarrow> ([], Returned)
      | Some message \<Rightarrow> ([Logger_error (''Error processing kline: '' @ message)], Threw))"

subsection \<open>\<^verbatim>\<open>handleMessage\<close>\<close>

text \<open>\<^verbatim>\<open>s.split(c)\<close> for a separator of one character: never an empty list.\<close>

fun split :: "char \<Rightarrow> string \<Rightarrow> string list" where
  "split c [] = [[]]"
| "split c (x # xs) =
     (if x = c then [] # split c xs
      else (case split c xs of [] \<Rightarrow> [[x]] | y # ys \<Rightarrow> (x # y) # ys))"

text \<open>
  \<^verbatim>\<open>callbacks[name]\<close> on an object literal with the two members \<^verbatim>\<open>kline\<close> and
  \<^verbatim>\<open>trade\<close> (\<^verbatim>\<open>messageCallback\<close> here, \<^verbatim>\<open>callbacks\<close> in the consumer): one of the
  two, or a function inherited from \<^verbatim>\<open>Object.prototype\<close>, or the inherited accessor
  \<^verbatim>\<open>__proto__\<close>, whose value is the object \<^verbatim>\<open>Object.prototype\<close> (truthy, and not a
  function), or \<^verbatim>\<open>undefined\<close>.
\<close>

definition Object_prototype_functions :: "string list" where
  "Object_prototype_functions =
     [''constructor'', ''__defineGetter__'', ''__defineSetter__'', ''hasOwnProperty'',
      ''__lookupGetter__'', ''__lookupSetter__'', ''isPrototypeOf'', ''propertyIsEnumerable'',
      ''toString'', ''valueOf'', ''toLocaleString'']"

datatype member = Own kind | Inherited | Not_callable | Absent

definition callbacks :: "string \<Rightarrow> member" where
  "callbacks name =
     (if name = ''kline'' then Own Kline
      else if name = ''trade'' then Own Trade
      else if name \<in> set Object_prototype_functions then Inherited
      else if name = ''__proto__'' then Not_callable
      else Absent)"

text \<open>
  What a dispatcher does with a message:
  \<^item> \<open>Ignored\<close>: it returns at once;
  \<^item> \<open>Called k v\<close>: it calls the callback of kind \<open>k\<close> with \<open>v\<close>;
  \<^item> \<open>Called_inherited name v\<close>: it calls the inherited function \<open>name\<close> with \<open>v\<close>
    (nothing is logged);
  \<^item> \<open>Unsupported\<close>: it logs \<^verbatim>\<open>'Not supported stream type'\<close> and returns;
  \<^item> \<open>Raised\<close>: it throws (a SyntaxError of \<^verbatim>\<open>JSON.parse\<close> or a TypeError).
  The test \<^verbatim>\<open>if (callback)\<close> passes for every member found; the call of a member that
  is not a function throws a TypeError.
\<close>

datatype dispatch =
    Ignored
  | Called kind jsval
  | Called_inherited string jsval
  | Unsupported
  | Raised

definition dispatch_by :: "string \<Rightarrow> jsval \<Rightarrow> dispatch" where
  "dispatch_by name v =
     (case callbacks name of
        Own k \<Rightarrow> Called k v
      | Inherited \<Rightarrow> Called_inherited name v
      | Not_callable \<Rightarrow> Raised
      | Absent \<Rightarrow> Unsupported)"

text \<open>
  \<^verbatim>\<open>handleMessage(data, messageCallback)\<close> of the ingestion side. A truthy
  \<^verbatim>\<open>item.stream\<close> that is not a string has no \<^verbatim>\<open>split\<close> method, and a stream name
  without \<^verbatim>\<open>@\<close> has no second part: both throw a TypeError.
\<close>

definition handleMessage :: "host \<Rightarrow> string \<Rightarrow> dispatch" where
  "handleMessage H data =
     (case JSON_parse H data of
        None \<Rightarrow> Raised
      | Some item \<Rightarrow>
     (case get item ''stream'' of
        None \<Rightarrow> Raised
      | Some stream \<Rightarrow>
          if \<not> truthy stream then Ignored
          else (case stream of
                  JStr s \<Rightarrow>
                    (case split CHR ''@'' s of
                       first # second # others \<Rightarrow>
                         (case split CHR ''_'' second of
                            dataType # rest \<Rightarrow> dispatch_by dataType (read item ''data'')
                          | [] \<Rightarrow> Raised)
                     | _ \<Rightarrow> Raised)
                | _ \<Rightarrow> Raised)))"

text \<open>
  The \<^verbatim>\<open>message\<close> callback of the stream: \<^verbatim>\<open>handleMessage\<close> with the two
  callbacks that run \<^verbatim>\<open>processKline\<close> and \<^verbatim>\<open>processTrade\<close>. Whether a call of an
  inherited function throws is the engine's matter; it has no effect on the module.
\<close>

definition message :: "host \<Rightarrow> completion \<Rightarrow> int \<Rightarrow> string \<Rightarrow> state \<Rightarrow> state \<times> effect list \<times> completion" where
  "message H inherited now data st =
     (case handleMessage H data of
        Ignored \<Rightarrow> (st, [], Returned)
      | Called Trade v \<Rightarrow> processTrade H now v st
      | Called Kline v \<Rightarrow> processKline H now v st
      | Called_inherited name v \<Rightarrow> (st, [], inherited)
      | Unsupported \<Rightarrow> (st, [Logger_error ''Not supported stream type''], Returned)
      | Raised \<Rightarrow> (st, [], Threw))"

section \<open>Consumption: \<^verbatim>\<open>minion/hopper-mq.js\<close>\<close>

text \<open>
  \<^verbatim>\<open>handleMessage\<close> of a worker; \<open>content\<close> is \<^verbatim>\<open>data.content.toString()\<close>.
  \<^verbatim>\<open>JSON.parse(item.data)\<close> converts its argument to a string first, the template
  literal of \<^verbatim>\<open>logger.debug\<close> converts the payload to a string, and the property key
  \<^verbatim>\<open>payload.eventType\<close> is converted to a string; each conversion can throw.
  \<open>Called Trade v\<close> is the call \<^verbatim>\<open>handleTradeMessage(v)\<close>, \<open>Called Kline v\<close> the call
  \<^verbatim>\<open>handleKlineMessage(v)\<close>.
\<close>

definition hopper_handleMessage :: "host \<Rightarrow> string \<Rightarrow> dispatch" where
  "hopper_handleMessage H content =
     (case JSON_parse H content of
        None \<Rightarrow> Raised
      | Some item \<Rightarrow>
     (case get item ''data'' of
        None \<Rightarrow> Raised
      | Some d \<Rightarrow>
          if \<not> truthy d then Ignored
          else (case ToString H d of
                  None \<Rightarrow> Raised
                | Some text \<Rightarrow>
               (case JSON_parse H text of
                  None \<Rightarrow> Raised
                | Some payload \<Rightarrow>
               (case ToString H payload of
                  None \<Rightarrow> Raised
                | Some shown \<Rightarrow>
               (case get payload ''eventType'' of
                  None \<Rightarrow> Raised
                | Some eventType \<Rightarrow>
               (case ToString H eventType of
                  None \<Rightarrow> Raised
                | Some name \<Rightarrow> dispatch_by name payload)))))))"

section \<open>The sliding-window channel in Redis\<close>

text \<open>
  A sorted set holds each member once, with its score. \<^verbatim>\<open>ZADD\<close> sets the score of
  the member; \<^verbatim>\<open>ZREMRANGEBYSCORE key lo hi\<close> removes the members whose score lies
  between \<open>lo\<close> and \<open>hi\<close>, both included. \<^verbatim>\<open>MULTI\<close> runs the two as one unit.
  The score is the number Redis reads from the command's argument.
\<close>

type_synonym zset = "(string \<times> jsnum) list"

definition num_le :: "jsnum \<Rightarrow> jsnum \<Rightarrow> bool" where
  "num_le a b = (num_less a b \<or> num_eq a b)"

definition zadd :: "jsnum \<Rightarrow> string \<Rightarrow> zset \<Rightarrow> zset" where
  "zadd score member z = (member, score) # filter (\<lambda>e. fst e \<noteq> member) z"

definition zremrangebyscore :: "jsnum \<Rightarrow> jsnum \<Rightarrow> zset \<Rightarrow> zset" where
  "zremrangebyscore lo hi z = filter (\<lambda>e. \<not> (num_le lo (snd e) \<and> num_le (snd e) hi)) z"

definition multi_exec :: "jsnum \<Rightarrow> string \<Rightarrow> int \<Rightarrow> int \<Rightarrow> zset \<Rightarrow> zset" where
  "multi_exec score member lo hi z =
     zremrangebyscore (Fin (of_int lo)) (Fin (of_int hi)) (zadd score member z)"

section \<open>The process over time\<close>

text \<open>
  The state after \<^verbatim>\<open>processTrade\<close> has run on each trade of a list in turn, each
  with its own value of \<^verbatim>\<open>Date.now()\<close>; the state of the module outlives a call
  that throws.
\<close>

fun after_trades :: "host \<Rightarrow> (int \<times> jsval) list \<Rightarrow> state \<Rightarrow> state" where
  "after_trades H [] st = st"
| "after_trades H ((now, trade) # rest) st = after_trades H rest (fst (processTrade H now trade st))"

fun after_klines :: "host \<Rightarrow> (int \<times> jsval) list \<Rightarrow> state \<Rightarrow> state" where
  "after_klines H [] st = st"
| "after_klines H ((now, kline) # rest) st = after_klines H rest (fst (processKline H now kline st))"

section \<open>A host for the examples\<close>

text \<open>
  The examples below run the model in a host whose built-ins are tables: on the texts and
  values the examples use they give what JavaScript gives; elsewhere their results are
  arbitrary.
\<close>

definition example_number :: "string \<Rightarrow> jsnum" where
  "example_number s =
     (if s = ''100.5'' then Fin 100.5
      else if s = ''2'' then Fin 2
      else if s = ''98'' then Fin 98
      else if s = ''99'' then Fin 99
      else if s = ''99.0'' then Fin 99
      else if s = ''100'' then Fin 100
      else if s = ''101'' then Fin 101
      else if s = ''101.0'' then Fin 101
      else if s = ''1000'' then Fin 1000
      else NaN)"

definition example_text :: "jsnum \<Rightarrow> string" where
  "example_text n =
     (if n = Fin 5 then ''5''
      else if n = Fin 10 then ''10''
      else if n = Fin 60 then ''60''
      else if n = Fin 98 then ''98''
      else if n = Fin 99 then ''99''
      else if n = Fin 100 then ''100''
      else if n = Fin 101 then ''101''
      else if n = Fin 1000 then ''1000''
      else if n = PosInf then ''Infinity''
      else if n = NegInf then ''-Infinity''
      else ''NaN'')"

text \<open>A trade as the exchange sends it, and the canonical trade the consumer reads.\<close>

definition example_trade :: jsval where
  "example_trade =
     JObj [(''e'', JStr ''trade''), (''E'', JNum (Fin 1000)), (''s'', JStr ''BTCUSDT''),
           (''t'', JNum (Fin 1)), (''p'', JStr ''100.5''), (''q'', JStr ''2'')]"

definition example_canonical_trade :: jsval where
  "example_canonical_trade =
     JObj [(''subId'', JNum (Fin 1)), (''exchange'', JStr ''binance''),
           (''eventType'', JStr ''trade''), (''eventTime'', JNum (Fin 1000)),
           (''symbol'', JStr ''BTCUSDT''), (''tradeId'', JNum (Fin 1)),
           (''price'', JNum (Fin 100.5)), (''quantity'', JNum (Fin 2)),
           (''timestamp'', JNum (Fin 1000))]"

definition example_payload :: string where
  \<open>example_payload =
     ''{"subId":1,"exchange":"binance","eventType":"trade","eventTime":1000,'' @
     ''"symbol":"BTCUSDT","tradeId":1,"price":100.5,"quantity":2,"timestamp":1000}''\<close>

text \<open>
  A message as the consumer reads it: an object whose \<^verbatim>\<open>data\<close> member is the text
  of the payload, each double quote of it escaped by a backslash.
\<close>

definition example_envelope :: string where
  \<open>example_envelope =
     ''{"data":"'' @
     concat (map (\<lambda>c. if c = CHR 0x22 then [CHR 0x5C, c] else [c]) example_payload) @
     ''"}''\<close>

definition example_stringify :: "jsval \<Rightarrow> string" where
  \<open>example_stringify v =
     (if v = JObj [(''subId'', JNum (Fin 1)), (''exchange'', JStr ''binance''),
                   (''eventType'', JStr ''trade''), (''eventTime'', JNum (Fin 1000)),
                   (''symbol'', JStr ''BTCUSDT''), (''tradeId'', JNum (Fin 1)),
                   (''price'', JNum (Fin 100.5)), (''quantity'', JNum (Fin 2)),
                   (''buyerOrderId'', JUndefined), (''sellerOrderId'', JUndefined),
                   (''tradeTime'', JUndefined), (''isBuyerMarketMaker'', JUndefined),
                   (''timestamp'', JNum (Fin 1000))]
      then example_payload
      else if v = JObj [(''subId'', JNum (Fin 1)), (''exchange'', JStr ''binance''),
                   (''eventType'', JUndefined), (''eventTime'', JUndefined),
                   (''symbol'', JUndefined), (''tradeId'', JUndefined),
                   (''price'', JNum NaN), (''quantity'', JNum NaN),
                   (''buyerOrderId'', JUndefined), (''sellerOrderId'', JUndefined),
                   (''tradeTime'', JUndefined), (''isBuyerMarketMaker'', JUndefined),
                   (''timestamp'', JUndefined)]
      then ''{"subId":1,"exchange":"binance","price":null,"quantity":null}''
      else if v = JObj [(''interval'', JNum (Fin 5)), (''price'', JNum PosInf)]
      then ''{"interval":5,"price":null}''
      else if v = JObj [(''interval'', JNum (Fin 5)), (''price'', JNum (Fin 100.5))]
      then ''{"interval":5,"price":100.5}''
      else if v = JObj [(''interval'', JNum (Fin 10)), (''price'', JNum PosInf)]
      then ''{"interval":10,"price":null}''
      else if v = JObj [(''interval'', JNum (Fin 10)), (''price'', JNum (Fin 100.5))]
      then ''{"interval":10,"price":100.5}''
      else ''{}'')\<close>

definition example_parse :: "string \<Rightarrow> jsval option" where
  \<open>example_parse s =
     (if s = example_envelope then Some (JObj [(''data'', JStr example_payload)])
      else if s = example_payload then Some example_canonical_trade
      else if s = ''{"stream":"btcusdt@trade","data":{"e":"trade","E":1000,'' @
                  ''"s":"BTCUSDT","t":1,"p":"100.5","q":"2"}}''
        then Some (JObj [(''stream'', JStr ''btcusdt@trade''), (''data'', example_trade)])
      else if s = ''{"stream":"btcusdt@trade","data":{}}''
        then Some (JObj [(''stream'', JStr ''btcusdt@trade''), (''data'', JObj [])])
      else if s = ''{"stream":"btcusdt@depth","data":{}}''
        then Some (JObj [(''stream'', JStr ''btcusdt@depth''), (''data'', JObj [])])
      else if s = ''{"data":{}}'' then Some (JObj [(''data'', JObj [])])
      else if s = ''null'' then Some JNull
      else None)\<close>

definition example_host :: host where
  "example_host =
     \<lparr>JSON_parse = example_parse, JSON_stringify = example_stringify,
      StringToNumber = example_number, NumberToString = example_text,
      parseFloat_text = example_number, process_pid = Fin 1\<rparr>"

text \<open>Klines with a numeric interval label and with the label of the exchange.\<close>

definition example_kline :: "jsval \<Rightarrow> jsval \<Rightarrow> jsval \<Rightarrow> jsval" where
  "example_kline i h l =
     JObj [(''e'', JStr ''kline''),
           (''k'', JObj [(''t'', JNum (Fin 1000)), (''T'', JNum (Fin 1000)),
                         (''s'', JStr ''BTCUSDT''), (''i'', i), (''h'', h), (''l'', l)])]"

section \<open>Properties\<close>

subsection \<open>Auxiliary facts\<close>

lemma cell_update [simp]: "cell (m(k \<mapsto> v)) j = (if j = k then v else cell m j)"
  by (simp add: cell_def)

lemma distinct_intervals: "distinct intervals"
  by (simp add: intervals_def)

lemma NaN_notin_intervals: "NaN \<notin> set intervals"
  by (simp add: intervals_def)

lemma initial_cells:
  "cell (highPrices initial_state) i =
     (if i \<in> set intervals then JNum (if i = PosInf then NegInf else PosInf) else JUndefined)"
  "cell (lowPrices initial_state) i =
     (if i \<in> set intervals then JNum (if i = PosInf then NegInf else PosInf) else JUndefined)"
  by (simp_all add: initial_state_def price_entries_def intervals_def cell_def)

lemma initial_cells_convert:
  "\<forall>i\<in>set intervals. ToNumber H (cell (highPrices initial_state) i) \<noteq> None
                      \<and> ToNumber H (cell (lowPrices initial_state) i) \<noteq> None"
  by (simp add: initial_cells)

lemma js_rem_PosInf: "num_eq (js_rem t PosInf) (Fin 0) \<longleftrightarrow> t = Fin 0"
  by (cases t) (auto simp: num_eq_def)

text \<open>On whole numbers the test of the loop is divisibility.\<close>

lemma js_rem_int:
  assumes "b \<noteq> 0"
  shows "num_eq (js_rem (Fin (of_int a)) (Fin (of_int b))) (Fin 0) \<longleftrightarrow> a mod b = 0"
proof -
  have "(of_int a :: real) - of_int b * of_int (truncate_real (of_int a / of_int b)) = 0
        \<longleftrightarrow> b dvd a" (is "?L \<longleftrightarrow> _")
  proof
    assume ?L
    then have "(of_int a :: real) = of_int (b * truncate_real (of_int a / of_int b))" by simp
    then have "a = b * truncate_real (of_int a / of_int b)" by (simp only: of_int_eq_iff)
    then show "b dvd a" by (metis dvd_triv_left)
  next
    assume "b dvd a"
    then obtain k where k: "a = b * k" by (auto simp: dvd_def)
    with assms have "(of_int a :: real) / of_int b = of_int k" by simp
    then have "truncate_real (of_int a / of_int b) = k" by (simp add: truncate_real_def)
    with k show ?L by simp
  qed
  with assms show ?thesis by (simp add: num_eq_def dvd_eq_mod_eq_0)
qed

lemma sample_intervals_spec:
  assumes "ToNumber H ts = Some t" and "distinct ivs"
    and "\<forall>i\<in>set ivs. ToNumber H (cell (highPrices st) i) \<noteq> None \<and> ToNumber H (cell (lowPrices st) i) \<noteq> None"
  shows "sample_intervals H ts price ivs st =
     (st\<lparr>highPrices := (\<lambda>i. if i \<in> set ivs \<and> num_eq (js_rem t i) (Fin 0)
              then Some (JNum (Math_max (the (ToNumber H (cell (highPrices st) i))) price))
              else highPrices st i),
         lowPrices := (\<lambda>i. if i \<in> set ivs \<and> num_eq (js_rem t i) (Fin 0)
              then Some (JNum (Math_min (the (ToNumber H (cell (lowPrices st) i))) price))
              else lowPrices st i)\<rparr>, Returned)"
  using assms
proof (induction ivs arbitrary: st)
  case Nil
  then show ?case by simp
next
  case (Cons i ivs)
  show ?case
  proof (cases "num_eq (js_rem t i) (Fin 0)")
    case False
    with Cons show ?thesis by (auto intro!: state.equality)
  next
    case True
    from Cons.prems obtain h l where h: "ToNumber H (cell (highPrices st) i) = Some h"
      and l: "ToNumber H (cell (lowPrices st) i) = Some l" by auto
    let ?st2 = "st\<lparr>highPrices := (highPrices st)(i \<mapsto> JNum (Math_max h price)),
                   lowPrices := (lowPrices st)(i \<mapsto> JNum (Math_min l price))\<rparr>"
    have d: "distinct ivs" and ni: "i \<notin> set ivs" using Cons.prems(2) by simp_all
    have conv2: "\<forall>j\<in>set ivs. ToNumber H (cell (highPrices ?st2) j) \<noteq> None \<and> ToNumber H (cell (lowPrices ?st2) j) \<noteq> None"
      using Cons.prems(3) ni by auto
    note IH = Cons.IH[OF Cons.prems(1) d conv2]
    have step: "sample_intervals H ts price (i # ivs) st = sample_intervals H ts price ivs ?st2"
      using True h l Cons.prems(1) by (simp add: Let_def)
    show ?thesis
      unfolding step IH using ni h l True
      by (auto intro!: state.equality simp: fun_eq_iff)
  qed
qed

text \<open>The state that \<^verbatim>\<open>processTrade\<close> leaves is the state its head loop leaves.\<close>

lemma processTrade_state:
  assumes "get trade ''E'' = Some timestamp" and "parseFloat H (read trade ''p'') = Some price"
  shows "fst (processTrade H now trade st) = fst (sample_intervals H timestamp price intervals st)"
  using assms
  by (simp add: processTrade_def Let_def split: option.splits prod.splits completion.splits)

lemma processTrade_state_throw:
  assumes "get trade ''E'' = None \<or> parseFloat H (read trade ''p'') = None"
  shows "fst (processTrade H now trade st) = st"
  using assms
  by (auto simp add: processTrade_def Let_def split: option.splits prod.splits completion.splits)

text \<open>An interval that the loop does not sample keeps its two entries.\<close>

lemma sample_intervals_unsampled:
  assumes "\<forall>t. ToNumber H ts = Some t \<longrightarrow> \<not> (k \<in> set ivs \<and> num_eq (js_rem t k) (Fin 0))"
  shows "highPrices (fst (sample_intervals H ts price ivs st)) k = highPrices st k
       \<and> lowPrices (fst (sample_intervals H ts price ivs st)) k = lowPrices st k"
  using assms
proof (induction ivs arbitrary: st)
  case Nil
  then show ?case by simp
next
  case (Cons i ivs)
  show ?case
  proof (cases "ToNumber H ts")
    case None
    then show ?thesis by simp
  next
    case (Some t)
    have rest: "\<forall>t. ToNumber H ts = Some t \<longrightarrow> \<not> (k \<in> set ivs \<and> num_eq (js_rem t k) (Fin 0))"
      using Cons.prems by auto
    have ne: "num_eq (js_rem t i) (Fin 0) \<Longrightarrow> i \<noteq> k"
      using Cons.prems Some by auto
    show ?thesis
      using Some Cons.IH[OF rest] ne
      by (auto simp: Let_def split: option.splits)
  qed
qed

subsection \<open>Initial extrema\<close>

text \<open>
  C2. The claim: at process start the running high of every interval is negative infinity
  and the running low is positive infinity. The code builds both objects from the same
  expression, which tests the interval: the high and the low of every finite interval
  start at positive infinity, the high and the low of the unbounded interval at
  negative infinity.
\<close>

theorem initial_extrema_by_interval:
  "cell (highPrices initial_state) i =
     (if i \<in> set intervals then JNum (if i = PosInf then NegInf else PosInf) else JUndefined)
   \<and> cell (lowPrices initial_state) i =
     (if i \<in> set intervals then JNum (if i = PosInf then NegInf else PosInf) else JUndefined)"
  by (simp add: initial_state_def price_entries_def intervals_def cell_def)

subsection \<open>Sampling by a trade\<close>

text \<open>
  C4. For a trade whose timestamp converts to the number \<open>t\<close> and whose price parses to
  \<open>price\<close>, \<^verbatim>\<open>processTrade\<close> leaves the entries of interval \<open>i\<close> at
  \<^verbatim>\<open>Math.max\<close> of the previous high and the price and at \<^verbatim>\<open>Math.min\<close> of the
  previous low and the price when \<open>i\<close> is in the interval set and \<^verbatim>\<open>t % i === 0\<close>,
  and leaves them as they were otherwise. The stored extrema are assumed convertible to
  numbers, as every value is that the module stores.
\<close>

theorem trade_samples_aligned_intervals:
  assumes "get trade ''E'' = Some timestamp"
    and "ToNumber H timestamp = Some t"
    and "parseFloat H (read trade ''p'') = Some price"
    and "\<forall>i\<in>set intervals. ToNumber H (cell (highPrices st) i) \<noteq> None
                          \<and> ToNumber H (cell (lowPrices st) i) \<noteq> None"
  shows "if i \<in> set intervals \<and> num_eq (js_rem t i) (Fin 0)
         then \<exists>h l. ToNumber H (cell (highPrices st) i) = Some h
                  \<and> ToNumber H (cell (lowPrices st) i) = Some l
                  \<and> highPrices (fst (processTrade H now trade st)) i = Some (JNum (Math_max h price))
                  \<and> lowPrices (fst (processTrade H now trade st)) i = Some (JNum (Math_min l price))
         else highPrices (fst (processTrade H now trade st)) i = highPrices st i
            \<and> lowPrices (fst (processTrade H now trade st)) i = lowPrices st i"
proof -
  have "fst (processTrade H now trade st) = fst (sample_intervals H timestamp price intervals st)"
    using assms(1,3) by (rule processTrade_state)
  also note sample_intervals_spec[OF assms(2) distinct_intervals assms(4), of price]
  finally show ?thesis using assms(4) by auto
qed

theorem trade_samples_aligned_intervals_witness:
  "get example_trade ''E'' = Some (JNum (Fin 1000))
   \<and> ToNumber example_host (JNum (Fin 1000)) = Some (Fin 1000)
   \<and> parseFloat example_host (read example_trade ''p'') = Some (Fin 100.5)
   \<and> num_eq (js_rem (Fin 1000) (Fin 5)) (Fin 0)
   \<and> lowPrices (fst (processTrade example_host 0 example_trade initial_state)) (Fin 5) = Some (JNum (Fin 100.5))
   \<and> highPrices (fst (processTrade example_host 0 example_trade initial_state)) (Fin 5) = Some (JNum PosInf)
   \<and> \<not> num_eq (js_rem (Fin 1000) (Fin 15)) (Fin 0)
   \<and> lowPrices (fst (processTrade example_host 0 example_trade initial_state)) (Fin 15) = Some (JNum PosInf)"
proof -
  have 1: "get example_trade ''E'' = Some (JNum (Fin 1000))"
    by (simp add: example_trade_def field_def)
  have 2: "ToNumber example_host (JNum (Fin 1000)) = Some (Fin 1000)" by simp
  have 3: "parseFloat example_host (read example_trade ''p'') = Some (Fin 100.5)"
    by (simp add: parseFloat_def read_def example_trade_def field_def example_host_def example_number_def)
  have 4: "\<forall>i\<in>set intervals. ToNumber example_host (cell (highPrices initial_state) i) \<noteq> None
                          \<and> ToNumber example_host (cell (lowPrices initial_state) i) \<noteq> None"
    by (rule initial_cells_convert)
  have 5: "num_eq (js_rem (Fin 1000) (Fin 5)) (Fin 0)" by (simp add: num_eq_def truncate_real_def)
  have 6: "\<not> num_eq (js_rem (Fin 1000) (Fin 15)) (Fin 0)" by (simp add: num_eq_def truncate_real_def)
  have i5: "Fin 5 \<in> set intervals" and i15: "Fin 15 \<in> set intervals" by (simp_all add: intervals_def)
  have c5: "cell (highPrices initial_state) (Fin 5) = JNum PosInf" "cell (lowPrices initial_state) (Fin 5) = JNum PosInf"
    and c15: "lowPrices initial_state (Fin 15) = Some (JNum PosInf)"
    by (simp_all add: initial_state_def price_entries_def intervals_def cell_def)
  from trade_samples_aligned_intervals[OF 1 2 3 4, of "Fin 5" 0] 5 i5 c5
  have a: "lowPrices (fst (processTrade example_host 0 example_trade initial_state)) (Fin 5) = Some (JNum (Fin 100.5))
      \<and> highPrices (fst (processTrade example_host 0 example_trade initial_state)) (Fin 5) = Some (JNum PosInf)"
    by (auto simp: Math_max_def Math_min_def)
  from trade_samples_aligned_intervals[OF 1 2 3 4, of "Fin 15" 0] 6 c15
  have b: "lowPrices (fst (processTrade example_host 0 example_trade initial_state)) (Fin 15) = Some (JNum PosInf)"
    by auto
  from 1 2 3 5 6 a b show ?thesis by blast
qed

subsection \<open>The unbounded interval on the trade path\<close>

text \<open>
  C10. \<^verbatim>\<open>t % Infinity === 0\<close> holds for \<open>t = 0\<close> only. So a run of
  \<^verbatim>\<open>processTrade\<close> over any list of trades whose timestamps do not convert to zero
  leaves the high and the low of the unbounded interval as they were; started in the
  initial state, they stay at their initial values.
\<close>

theorem unbounded_interval_never_sampled_by_trades:
  assumes "\<forall>e\<in>set trades. \<forall>timestamp. get (snd e) ''E'' = Some timestamp
              \<longrightarrow> ToNumber H timestamp \<noteq> Some (Fin 0)"
  shows "highPrices (after_trades H trades st) PosInf = highPrices st PosInf
       \<and> lowPrices (after_trades H trades st) PosInf = lowPrices st PosInf
       \<and> (\<forall>t. num_eq (js_rem t PosInf) (Fin 0) \<longleftrightarrow> t = Fin 0)"
proof -
  have step: "highPrices (fst (processTrade H now trade s)) PosInf = highPrices s PosInf
            \<and> lowPrices (fst (processTrade H now trade s)) PosInf = lowPrices s PosInf"
    if nz: "\<forall>timestamp. get trade ''E'' = Some timestamp \<longrightarrow> ToNumber H timestamp \<noteq> Some (Fin 0)"
    for now trade s
  proof (cases "get trade ''E''")
    case None
    then show ?thesis by (simp add: processTrade_state_throw)
  next
    case (Some timestamp)
    show ?thesis
    proof (cases "parseFloat H (read trade ''p'')")
      case None
      then show ?thesis by (simp add: processTrade_state_throw)
    next
      case (Some price)
      have "\<forall>t. ToNumber H timestamp = Some t \<longrightarrow>
              \<not> (PosInf \<in> set intervals \<and> num_eq (js_rem t PosInf) (Fin 0))"
        using nz \<open>get trade ''E'' = Some timestamp\<close> by (auto simp: js_rem_PosInf)
      from sample_intervals_unsampled[OF this]
      show ?thesis
        using processTrade_state[OF \<open>get trade ''E'' = Some timestamp\<close> Some] by simp
    qed
  qed
  have "highPrices (after_trades H trades st) PosInf = highPrices st PosInf
       \<and> lowPrices (after_trades H trades st) PosInf = lowPrices st PosInf"
    using assms
  proof (induction trades arbitrary: st)
    case Nil
    then show ?case by simp
  next
    case (Cons e trades)
    obtain now trade where e: "e = (now, trade)" by (cases e)
    have "\<forall>timestamp. get trade ''E'' = Some timestamp \<longrightarrow> ToNumber H timestamp \<noteq> Some (Fin 0)"
      using Cons.prems e by simp
    from step[OF this, of now st] Cons.IH[of "fst (processTrade H now trade st)"] Cons.prems e
    show ?case by simp
  qed
  then show ?thesis by (simp add: js_rem_PosInf)
qed

theorem unbounded_interval_never_sampled_by_trades_witness:
  "cell (highPrices (after_trades example_host [(0, example_trade), (5, example_trade)] initial_state)) PosInf = JNum NegInf
   \<and> cell (lowPrices (after_trades example_host [(0, example_trade), (5, example_trade)] initial_state)) PosInf = JNum NegInf"
proof -
  have h: "\<forall>e\<in>set [(0, example_trade), (5, example_trade)]. \<forall>timestamp. get (snd e) ''E'' = Some timestamp
              \<longrightarrow> ToNumber example_host timestamp \<noteq> Some (Fin 0)"
    by (auto simp add: example_trade_def field_def)
  have c: "highPrices initial_state PosInf = Some (JNum NegInf)" "lowPrices initial_state PosInf = Some (JNum NegInf)"
    by (simp_all add: initial_state_def price_entries_def intervals_def)
  from unbounded_interval_never_sampled_by_trades[OF h, of initial_state] c h
  show ?thesis by (simp add: cell_def)
qed

subsection \<open>Counters of the publisher\<close>

text \<open>
  C6. The claim: a failed enqueue increments the fail counter of its kind and not the
  success counter. The callback increments the success counter after the \<^verbatim>\<open>if\<close>, so a
  failed enqueue increments both counters (and logs the error); this holds for the trade
  and for the kline callback.
\<close>

theorem failed_enqueue_counts_as_success_too:
  "sendQueue_callback Trade (Some err) st
     = (st\<lparr>failT := failT st + 1, succT := succT st + 1\<rparr>, [Logger_error err])
   \<and> sendQueue_callback Kline (Some err) st
     = (st\<lparr>failK := failK st + 1, succK := succK st + 1\<rparr>, [Logger_error err])
   \<and> succT (fst (sendQueue_callback Trade (Some err) initial_state)) = 1
   \<and> failT (fst (sendQueue_callback Trade (Some err) initial_state)) = 1"
  by (simp add: initial_state_def)

subsection \<open>After the cache write of a trade\<close>

lemma snapshot_loop_spec:
  assumes "ToNumber H timestamp = Some t" and "ToString H symbol = Some s"
  shows "snapshot_loop H timestamp symbol st ivs =
           (map (snapshot_write H s st) (filter (\<lambda>i. num_eq (js_rem t i) (Fin 0)) ivs), Returned)"
  using assms by (induction ivs) simp_all

lemma sample_intervals_Returned:
  assumes "sample_intervals H timestamp price (i # ivs) st = (st1, Returned)"
  shows "\<exists>t. ToNumber H timestamp = Some t"
  using assms by (cases "ToNumber H timestamp") simp_all

lemma processTrade_Returned:
  assumes "processTrade H now trade st = (st1, effs, Returned)"
  shows "\<exists>timestamp t s price quantity.
           get trade ''E'' = Some timestamp \<and> ToNumber H timestamp = Some t
         \<and> ToString H (read trade ''s'') = Some s
         \<and> parseFloat H (read trade ''p'') = Some price
         \<and> parseFloat H (read trade ''q'') = Some quantity
         \<and> effs = [SendQueue (JSON_stringify H (tradeObject H trade price quantity)) 0 0 Trade,
                   Multi (''trade:'' @ s @ '':binance'') timestamp
                     (JSON_stringify H (tradeObject H trade price quantity)) 0 (now - 3600000)]"
proof -
  from assms obtain timestamp price sta quantity s where
      E: "get trade ''E'' = Some timestamp"
    and loop: "sample_intervals H timestamp price intervals st = (sta, Returned)"
    and s: "ToString H (read trade ''s'') = Some s"
    and p: "parseFloat H (read trade ''p'') = Some price"
    and q: "parseFloat H (read trade ''q'') = Some quantity"
    and effs: "effs = [SendQueue (JSON_stringify H (tradeObject H trade price quantity)) 0 0 Trade,
                   Multi (''trade:'' @ s @ '':binance'') timestamp
                     (JSON_stringify H (tradeObject H trade price quantity)) 0 (now - 3600000)]"
    by (auto simp: processTrade_def Let_def split: option.splits prod.splits completion.splits)
  from loop have "\<exists>t. ToNumber H timestamp = Some t"
    unfolding intervals_def by (rule sample_intervals_Returned)
  with E s p q effs show ?thesis by blast
qed

text \<open>
  C7. Let \<^verbatim>\<open>processTrade\<close> have returned, so that it has enqueued the canonical trade
  (priority 0, delay 0) and started the transaction on the trade's channel. If the
  transaction is fulfilled, the \<^verbatim>\<open>then\<close> callback makes, for each interval \<open>i\<close> of the
  (duplicate-free) interval set that the trade's timestamp samples and in the order of
  the set, one pipeline of two \<^verbatim>\<open>set\<close> commands: the key
  \<^verbatim>\<open>high:<i>:<symbol>:binance\<close> gets the text of \<^verbatim>\<open>{interval: i, price: highPrices[i]}\<close>
  and the key \<^verbatim>\<open>low:<i>:<symbol>:binance\<close> the text of
  \<^verbatim>\<open>{interval: i, price: lowPrices[i]}\<close>, with the extrema of that moment; then it
  enqueues the same payload, the text of the canonical trade, once more with priority 0
  and delay 300. If the transaction is rejected, the only effect is the log line with
  the error's message.
\<close>

theorem trade_cache_outcome_decides_snapshots_and_duplicate:
  assumes "processTrade H now trade st = (st1, effs, Returned)"
  shows "\<exists>timestamp t s price quantity payload.
           get trade ''E'' = Some timestamp \<and> ToNumber H timestamp = Some t
         \<and> ToString H (read trade ''s'') = Some s
         \<and> parseFloat H (read trade ''p'') = Some price
         \<and> parseFloat H (read trade ''q'') = Some quantity
         \<and> payload = JSON_stringify H
              (JObj [(''subId'', JNum (process_pid H)), (''exchange'', JStr ''binance''),
                     (''eventType'', read trade ''e''), (''eventTime'', timestamp),
                     (''symbol'', read trade ''s''), (''tradeId'', read trade ''t''),
                     (''price'', JNum price), (''quantity'', JNum quantity),
                     (''buyerOrderId'', read trade ''b''), (''sellerOrderId'', read trade ''a''),
                     (''tradeTime'', read trade ''T''), (''isBuyerMarketMaker'', read trade ''m''),
                     (''timestamp'', timestamp)])
         \<and> effs = [SendQueue payload 0 0 Trade,
                   Multi (''trade:'' @ s @ '':binance'') timestamp payload 0 (now - 3600000)]
         \<and> (\<forall>e st2. processTrade_settled H e trade payload None st2
                = (map (\<lambda>i. Pipeline
                              (''high:'' @ NumberToString H i @ '':'' @ s @ '':binance'')
                              (JSON_stringify H
                                 (JObj [(''interval'', JNum i), (''price'', cell (highPrices st2) i)]))
                              (''low:'' @ NumberToString H i @ '':'' @ s @ '':binance'')
                              (JSON_stringify H
                                 (JObj [(''interval'', JNum i), (''price'', cell (lowPrices st2) i)])))
                       (filter (\<lambda>i. num_eq (js_rem t i) (Fin 0)) intervals)
                     @ [SendQueue payload 0 300 Trade],
                   Returned))
         \<and> (\<forall>e st2 message. processTrade_settled H e trade payload (Some message) st2
                = ([Logger_error (''Error processing trade: '' @ message)], Threw))
         \<and> distinct intervals"
proof -
  from processTrade_Returned[OF assms] obtain timestamp t s price quantity where
      E: "get trade ''E'' = Some timestamp" and t: "ToNumber H timestamp = Some t"
    and s: "ToString H (read trade ''s'') = Some s"
    and p: "parseFloat H (read trade ''p'') = Some price"
    and q: "parseFloat H (read trade ''q'') = Some quantity"
    and effs: "effs = [SendQueue (JSON_stringify H (tradeObject H trade price quantity)) 0 0 Trade,
                   Multi (''trade:'' @ s @ '':binance'') timestamp
                     (JSON_stringify H (tradeObject H trade price quantity)) 0 (now - 3600000)]"
    by blast
  have rd: "read trade ''E'' = timestamp" using E by (simp add: read_def)
  let ?payload = "JSON_stringify H (tradeObject H trade price quantity)"
  have obj: "?payload = JSON_stringify H
              (JObj [(''subId'', JNum (process_pid H)), (''exchange'', JStr ''binance''),
                     (''eventType'', read trade ''e''), (''eventTime'', timestamp),
                     (''symbol'', read trade ''s''), (''tradeId'', read trade ''t''),
                     (''price'', JNum price), (''quantity'', JNum quantity),
                     (''buyerOrderId'', read trade ''b''), (''sellerOrderId'', read trade ''a''),
                     (''tradeTime'', read trade ''T''), (''isBuyerMarketMaker'', read trade ''m''),
                     (''timestamp'', timestamp)])"
    by (simp add: tradeObject_def rd)
  have ok: "processTrade_settled H e trade payload None st2
          = (map (\<lambda>i. Pipeline
                              (''high:'' @ NumberToString H i @ '':'' @ s @ '':binance'')
                              (JSON_stringify H
                                 (JObj [(''interval'', JNum i), (''price'', cell (highPrices st2) i)]))
                              (''low:'' @ NumberToString H i @ '':'' @ s @ '':binance'')
                              (JSON_stringify H
                                 (JObj [(''interval'', JNum i), (''price'', cell (lowPrices st2) i)])))
                 (filter (\<lambda>i. num_eq (js_rem t i) (Fin 0)) intervals)
               @ [SendQueue payload 0 300 Trade], Returned)" for e st2 payload
    using snapshot_loop_spec[OF t s, of st2 intervals]
    by (simp add: processTrade_settled_def processTrade_then_def rd snapshot_write_def Let_def)
  have bad: "processTrade_settled H e trade payload (Some message) st2
          = ([Logger_error (''Error processing trade: '' @ message)], Threw)" for e st2 payload message
    by (simp add: processTrade_settled_def)
  show ?thesis
    apply (rule exI[of _ timestamp], rule exI[of _ t], rule exI[of _ s])
    apply (rule exI[of _ price], rule exI[of _ quantity], rule exI[of _ ?payload])
    using E t s p q obj effs ok bad distinct_intervals
    apply (intro conjI allI)
    apply assumption+
    done
qed

lemma example_processTrade:
  "snd (processTrade example_host now example_trade initial_state)
     = ([SendQueue example_payload 0 0 Trade,
         Multi ''trade:BTCUSDT:binance'' (JNum (Fin 1000)) example_payload 0 (now - 3600000)],
        Returned)"
proof -
  have E: "get example_trade ''E'' = Some (JNum (Fin 1000))"
    by (simp add: example_trade_def field_def)
  have p: "parseFloat example_host (read example_trade ''p'') = Some (Fin 100.5)"
    by (simp add: parseFloat_def read_def example_trade_def field_def example_host_def example_number_def)
  have q: "parseFloat example_host (read example_trade ''q'') = Some (Fin 2)"
    by (simp add: parseFloat_def read_def example_trade_def field_def example_host_def example_number_def)
  have s: "ToString example_host (read example_trade ''s'') = Some ''BTCUSDT''"
    by (simp add: read_def example_trade_def field_def)
  have conv: "\<forall>i\<in>set intervals. ToNumber example_host (cell (highPrices initial_state) i) \<noteq> None
                          \<and> ToNumber example_host (cell (lowPrices initial_state) i) \<noteq> None"
    by (rule initial_cells_convert)
  obtain sta where loop:
    "sample_intervals example_host (JNum (Fin 1000)) (Fin 100.5) intervals initial_state = (sta, Returned)"
    using sample_intervals_spec[OF _ distinct_intervals conv, of "JNum (Fin 1000)" "Fin 1000" "Fin 100.5"]
    by simp
  have obj: "JSON_stringify example_host (tradeObject example_host example_trade (Fin 100.5) (Fin 2)) = example_payload"
    by (simp add: tradeObject_def read_def example_trade_def field_def example_host_def example_stringify_def)
  show ?thesis
    using E p q s loop obj
    by (simp add: processTrade_def Let_def)
qed

lemma example_sampled:
  "filter (\<lambda>i. num_eq (js_rem (Fin 1000) i) (Fin 0)) intervals = [Fin 5, Fin 10]"
  by (simp add: intervals_def num_eq_def truncate_real_def)

text \<open>The entries of the intervals 5 and 10 after the example trade.\<close>

lemma example_trade_cells:
  "cell (highPrices (fst (processTrade example_host 0 example_trade initial_state))) (Fin 5) = JNum PosInf"
  "cell (lowPrices (fst (processTrade example_host 0 example_trade initial_state))) (Fin 5) = JNum (Fin 100.5)"
  "cell (highPrices (fst (processTrade example_host 0 example_trade initial_state))) (Fin 10) = JNum PosInf"
  "cell (lowPrices (fst (processTrade example_host 0 example_trade initial_state))) (Fin 10) = JNum (Fin 100.5)"
proof -
  have E: "get example_trade ''E'' = Some (JNum (Fin 1000))"
    by (simp add: example_trade_def field_def)
  have p: "parseFloat example_host (read example_trade ''p'') = Some (Fin 100.5)"
    by (simp add: parseFloat_def read_def example_trade_def field_def example_host_def example_number_def)
  have t: "ToNumber example_host (JNum (Fin 1000)) = Some (Fin 1000)" by simp
  have s5: "num_eq (js_rem (Fin 1000) (Fin 5)) (Fin 0)" and s10: "num_eq (js_rem (Fin 1000) (Fin 10)) (Fin 0)"
    by (simp_all add: num_eq_def truncate_real_def)
  have i: "Fin 5 \<in> set intervals" "Fin 10 \<in> set intervals" by (simp_all add: intervals_def)
  have c: "cell (highPrices initial_state) (Fin 5) = JNum PosInf"
          "cell (lowPrices initial_state) (Fin 5) = JNum PosInf"
          "cell (highPrices initial_state) (Fin 10) = JNum PosInf"
          "cell (lowPrices initial_state) (Fin 10) = JNum PosInf"
    using initial_cells[of "Fin 5"] initial_cells[of "Fin 10"] i by simp_all
  note st = processTrade_state[OF E p, of 0 initial_state]
  note loop = sample_intervals_spec[OF t distinct_intervals initial_cells_convert, of "Fin 100.5"]
  show "cell (highPrices (fst (processTrade example_host 0 example_trade initial_state))) (Fin 5) = JNum PosInf"
       "cell (lowPrices (fst (processTrade example_host 0 example_trade initial_state))) (Fin 5) = JNum (Fin 100.5)"
       "cell (highPrices (fst (processTrade example_host 0 example_trade initial_state))) (Fin 10) = JNum PosInf"
       "cell (lowPrices (fst (processTrade example_host 0 example_trade initial_state))) (Fin 10) = JNum (Fin 100.5)"
    unfolding st loop using s5 s10 i c
    by (simp_all add: cell_def Math_max_def Math_min_def)
qed

theorem trade_cache_outcome_decides_snapshots_and_duplicate_witness:
  \<open>processTrade_settled example_host ''TypeError'' example_trade example_payload None
       (fst (processTrade example_host 0 example_trade initial_state))
     = ([Pipeline ''high:5:BTCUSDT:binance'' ''{"interval":5,"price":null}''
                  ''low:5:BTCUSDT:binance'' ''{"interval":5,"price":100.5}'',
         Pipeline ''high:10:BTCUSDT:binance'' ''{"interval":10,"price":null}''
                  ''low:10:BTCUSDT:binance'' ''{"interval":10,"price":100.5}'',
         SendQueue example_payload 0 300 Trade], Returned)
   \<and> processTrade_settled example_host ''TypeError'' example_trade example_payload (Some ''closed'')
       (fst (processTrade example_host 0 example_trade initial_state))
     = ([Logger_error ''Error processing trade: closed''], Threw)\<close>
proof -
  let ?st = "fst (processTrade example_host 0 example_trade initial_state)"
  obtain st1 where run: "processTrade example_host 0 example_trade initial_state
      = (st1, [SendQueue example_payload 0 0 Trade,
         Multi ''trade:BTCUSDT:binance'' (JNum (Fin 1000)) example_payload 0 (0 - 3600000)], Returned)"
    using example_processTrade[of 0] by (cases "processTrade example_host 0 example_trade initial_state") simp
  from trade_cache_outcome_decides_snapshots_and_duplicate[OF run]
  obtain timestamp t s payload where
      t: "ToNumber example_host timestamp = Some t"
    and s: "ToString example_host (read example_trade ''s'') = Some s"
    and effs: "[SendQueue example_payload 0 0 Trade,
         Multi ''trade:BTCUSDT:binance'' (JNum (Fin 1000)) example_payload 0 (0 - 3600000)]
        = [SendQueue payload 0 0 Trade,
                   Multi (''trade:'' @ s @ '':binance'') timestamp payload 0 (0 - 3600000)]"
    and ok: "\<forall>e st2. processTrade_settled example_host e example_trade payload None st2
                = (map (\<lambda>i. Pipeline
                              (''high:'' @ NumberToString example_host i @ '':'' @ s @ '':binance'')
                              (JSON_stringify example_host
                                 (JObj [(''interval'', JNum i), (''price'', cell (highPrices st2) i)]))
                              (''low:'' @ NumberToString example_host i @ '':'' @ s @ '':binance'')
                              (JSON_stringify example_host
                                 (JObj [(''interval'', JNum i), (''price'', cell (lowPrices st2) i)])))
                       (filter (\<lambda>i. num_eq (js_rem t i) (Fin 0)) intervals)
                     @ [SendQueue payload 0 300 Trade],
                   Returned)"
    and bad: "\<forall>e st2 message. processTrade_settled example_host e example_trade payload (Some message) st2
                = ([Logger_error (''Error processing trade: '' @ message)], Threw)"
    by blast
  from effs have pl: "payload = example_payload" and ts: "timestamp = JNum (Fin 1000)" by simp_all
  have host: "NumberToString example_host = example_text"
             "JSON_stringify example_host = example_stringify"
    by (simp_all add: example_host_def)
  from s have sv: "s = ''BTCUSDT''" by (simp add: read_def example_trade_def field_def)
  from t ts have tv: "t = Fin 1000" by simp
  have a: \<open>processTrade_settled example_host ''TypeError'' example_trade example_payload None ?st
     = ([Pipeline ''high:5:BTCUSDT:binance'' ''{"interval":5,"price":null}''
                  ''low:5:BTCUSDT:binance'' ''{"interval":5,"price":100.5}'',
         Pipeline ''high:10:BTCUSDT:binance'' ''{"interval":10,"price":null}''
                  ''low:10:BTCUSDT:binance'' ''{"interval":10,"price":100.5}'',
         SendQueue example_payload 0 300 Trade], Returned)\<close>
    using ok[rule_format, of "''TypeError''" ?st]
    unfolding pl sv tv example_sampled
    by (simp add: example_trade_cells host example_text_def example_stringify_def)
  have b: "processTrade_settled example_host ''TypeError'' example_trade example_payload (Some ''closed'') ?st
     = ([Logger_error ''Error processing trade: closed''], Threw)"
    using bad[rule_format, of "''TypeError''" "''closed''" ?st] unfolding pl by simp
  from a b show ?thesis by simp
qed

subsection \<open>Dispatch in the consumer\<close>

text \<open>
  C1. Let a delivered message parse to an envelope whose \<^verbatim>\<open>data\<close> member is truthy and
  converts to a text, and let that text parse to an event object (one that has no member
  named \<^verbatim>\<open>toString\<close>, as no canonical event has). If the event's \<^verbatim>\<open>eventType\<close> is
  \<^verbatim>\<open>"trade"\<close> the worker calls \<^verbatim>\<open>handleTradeMessage\<close> with the event; if it is
  \<^verbatim>\<open>"kline"\<close> the worker calls \<^verbatim>\<open>handleKlineMessage\<close> with it.
\<close>

theorem consumer_forwards_event_to_handler_of_its_kind:
  assumes "JSON_parse H content = Some item"
    and "get item ''data'' = Some d" and "truthy d" and "ToString H d = Some text"
    and "JSON_parse H text = Some (JObj event)"
    and "''toString'' \<notin> fst ` set event"
  shows "(field event ''eventType'' = JStr ''trade''
            \<longrightarrow> hopper_handleMessage H content = Called Trade (JObj event))
       \<and> (field event ''eventType'' = JStr ''kline''
            \<longrightarrow> hopper_handleMessage H content = Called Kline (JObj event))"
  using assms
  by (simp add: hopper_handleMessage_def dispatch_by_def callbacks_def)

lemma example_payload_neq_envelope: "example_payload \<noteq> example_envelope"
  by (simp add: example_payload_def example_envelope_def)

text \<open>
  The example: the payload that \<^verbatim>\<open>processTrade\<close> enqueues for the example trade,
  delivered in an envelope, reaches \<^verbatim>\<open>handleTradeMessage\<close>.
\<close>

theorem consumer_forwards_event_to_handler_of_its_kind_witness:
  "fst (snd (processTrade example_host 0 example_trade initial_state)) ! 0
     = SendQueue example_payload 0 0 Trade
   \<and> hopper_handleMessage example_host example_envelope = Called Trade example_canonical_trade"
proof -
  have 1: "JSON_parse example_host example_envelope = Some (JObj [(''data'', JStr example_payload)])"
    by (simp add: example_host_def example_parse_def)
  have 2: "get (JObj [(''data'', JStr example_payload)]) ''data'' = Some (JStr example_payload)"
    by (simp add: field_def)
  have 3: "truthy (JStr example_payload)" by (simp add: example_payload_def)
  have 4: "ToString example_host (JStr example_payload) = Some example_payload" by simp
  have 5: "JSON_parse example_host example_payload
             = Some (JObj [(''subId'', JNum (Fin 1)), (''exchange'', JStr ''binance''),
           (''eventType'', JStr ''trade''), (''eventTime'', JNum (Fin 1000)),
           (''symbol'', JStr ''BTCUSDT''), (''tradeId'', JNum (Fin 1)),
           (''price'', JNum (Fin 100.5)), (''quantity'', JNum (Fin 2)),
           (''timestamp'', JNum (Fin 1000))])"
    using example_payload_neq_envelope
    by (simp add: example_host_def example_parse_def example_canonical_trade_def)
  have 6: "''toString'' \<notin> fst ` set [(''subId'', JNum (Fin 1)), (''exchange'', JStr ''binance''),
           (''eventType'', JStr ''trade''), (''eventTime'', JNum (Fin 1000)),
           (''symbol'', JStr ''BTCUSDT''), (''tradeId'', JNum (Fin 1)),
           (''price'', JNum (Fin 100.5)), (''quantity'', JNum (Fin 2)),
           (''timestamp'', JNum (Fin 1000))]"
    by simp
  from consumer_forwards_event_to_handler_of_its_kind[OF 1 2 3 4 5 6]
  have "hopper_handleMessage example_host example_envelope = Called Trade example_canonical_trade"
    by (simp add: field_def example_canonical_trade_def)
  then show ?thesis using example_processTrade[of 0] by simp
qed

subsection \<open>Dispatch of a raw frame\<close>

lemma split_head: "\<exists>ys. split c xs = takeWhile (\<lambda>x. x \<noteq> c) xs # ys"
  by (induction xs) (auto split: list.splits)

lemma split_first_separator:
  assumes "c \<notin> set a"
  shows "split c (a @ c # b) = a # split c b"
  using assms by (induction a) auto

lemma split_no_separator:
  assumes "c \<notin> set a"
  shows "split c a = [a]"
  using assms by (induction a) auto

text \<open>
  The stream-kind tag of a stream name with an \<^verbatim>\<open>@\<close>: the text after the first
  \<^verbatim>\<open>@\<close>, up to the next \<^verbatim>\<open>@\<close> or \<^verbatim>\<open>_\<close>.
\<close>

lemma handleMessage_tag:
  assumes "JSON_parse H data = Some item"
    and "get item ''stream'' = Some (JStr (name @ CHR ''@'' # tail))"
    and "CHR ''@'' \<notin> set name"
  shows "handleMessage H data =
           dispatch_by (takeWhile (\<lambda>x. x \<noteq> CHR ''_'') (takeWhile (\<lambda>x. x \<noteq> CHR ''@'') tail))
             (read item ''data'')"
proof -
  obtain ys where 1: "split CHR ''@'' tail = takeWhile (\<lambda>x. x \<noteq> CHR ''@'') tail # ys"
    using split_head by blast
  obtain zs where 2: "split CHR ''_'' (takeWhile (\<lambda>x. x \<noteq> CHR ''@'') tail)
        = takeWhile (\<lambda>x. x \<noteq> CHR ''_'') (takeWhile (\<lambda>x. x \<noteq> CHR ''@'') tail) # zs"
    using split_head by blast
  show ?thesis
    using assms(1,2) split_first_separator[OF assms(3), of tail] 1 2
    by (simp add: handleMessage_def)
qed

text \<open>A tag has no \<^verbatim>\<open>_\<close>, so it is never \<^verbatim>\<open>__proto__\<close>.\<close>

lemma tag_not_proto:
  "takeWhile (\<lambda>x. x \<noteq> CHR ''_'') xs \<noteq> ''__proto__''"
proof
  assume "takeWhile (\<lambda>x. x \<noteq> CHR ''_'') xs = ''__proto__''"
  then have "CHR ''_'' \<in> set (takeWhile (\<lambda>x. x \<noteq> CHR ''_'') xs)" by simp
  then show False by (auto dest: set_takeWhileD)
qed

text \<open>Every text with an \<^verbatim>\<open>@\<close> has a first one.\<close>

lemma first_separator:
  assumes "c \<in> set s"
  shows "\<exists>name tail. s = name @ c # tail \<and> c \<notin> set name"
  using assms by (rule split_list_first)

text \<open>
  C9, as the code has it. For every raw frame:
  \<^item> a frame that is not JSON, a frame that parses to \<^verbatim>\<open>null\<close>, and a frame whose
    \<^verbatim>\<open>stream\<close> member is truthy but not a text, or a text without \<^verbatim>\<open>@\<close>, make the
    dispatcher throw, and nothing is logged;
  \<^item> a frame whose \<^verbatim>\<open>stream\<close> member is falsy is dropped in silence;
  \<^item> a frame whose stream name has an \<^verbatim>\<open>@\<close> and whose tag is neither \<^verbatim>\<open>kline\<close> nor
    \<^verbatim>\<open>trade\<close> is logged as unsupported and dropped, unless the tag names a function of
    \<^verbatim>\<open>Object.prototype\<close>, which is then called and nothing is logged.
  In all these cases no call reaches the queue or the cache, and the extrema and the
  counters stay as they were. A frame with the tag \<^verbatim>\<open>trade\<close> or \<^verbatim>\<open>kline\<close> goes to
  \<^verbatim>\<open>processTrade\<close> or \<^verbatim>\<open>processKline\<close> with whatever \<^verbatim>\<open>data\<close> it has: no field
  is checked. The last conjunct says that these cases are all the frames there are.
\<close>

theorem dispatcher_drops_every_frame_without_trade_or_kline_tag:
  "(JSON_parse H data = None \<longrightarrow> message H inherited now data st = (st, [], Threw))
   \<and> (\<forall>item. JSON_parse H data = Some item \<and> (item = JNull \<or> item = JUndefined)
        \<longrightarrow> message H inherited now data st = (st, [], Threw))
   \<and> (\<forall>item stream. JSON_parse H data = Some item \<and> get item ''stream'' = Some stream
          \<and> \<not> truthy stream
        \<longrightarrow> message H inherited now data st = (st, [], Returned))
   \<and> (\<forall>item stream. JSON_parse H data = Some item \<and> get item ''stream'' = Some stream
          \<and> truthy stream \<and> (\<forall>s. stream \<noteq> JStr s)
        \<longrightarrow> message H inherited now data st = (st, [], Threw))
   \<and> (\<forall>item s. JSON_parse H data = Some item \<and> get item ''stream'' = Some (JStr s)
          \<and> s \<noteq> [] \<and> CHR ''@'' \<notin> set s
        \<longrightarrow> message H inherited now data st = (st, [], Threw))
   \<and> (\<forall>item name tail tag. JSON_parse H data = Some item
          \<and> get item ''stream'' = Some (JStr (name @ CHR ''@'' # tail)) \<and> CHR ''@'' \<notin> set name
          \<and> tag = takeWhile (\<lambda>x. x \<noteq> CHR ''_'') (takeWhile (\<lambda>x. x \<noteq> CHR ''@'') tail)
        \<longrightarrow> (tag \<noteq> ''kline'' \<and> tag \<noteq> ''trade'' \<and> tag \<notin> set Object_prototype_functions
              \<longrightarrow> message H inherited now data st
                    = (st, [Logger_error ''Not supported stream type''], Returned))
          \<and> (tag \<in> set Object_prototype_functions
              \<longrightarrow> message H inherited now data st = (st, [], inherited))
          \<and> (tag = ''trade''
              \<longrightarrow> message H inherited now data st = processTrade H now (read item ''data'') st)
          \<and> (tag = ''kline''
              \<longrightarrow> message H inherited now data st = processKline H now (read item ''data'') st))
   \<and> (JSON_parse H data = None
        \<or> (\<exists>item. JSON_parse H data = Some item \<and> (item = JNull \<or> item = JUndefined))
        \<or> (\<exists>item stream. JSON_parse H data = Some item \<and> get item ''stream'' = Some stream
              \<and> (\<not> truthy stream
                  \<or> (truthy stream \<and> (\<forall>s. stream \<noteq> JStr s))
                  \<or> (\<exists>s. stream = JStr s \<and> s \<noteq> [] \<and> CHR ''@'' \<notin> set s)
                  \<or> (\<exists>name tail. stream = JStr (name @ CHR ''@'' # tail)
                        \<and> CHR ''@'' \<notin> set name))))"
proof (intro conjI allI impI)
  assume "JSON_parse H data = None"
  then show "message H inherited now data st = (st, [], Threw)"
    by (simp add: message_def handleMessage_def)
next
  fix item
  assume "JSON_parse H data = Some item \<and> (item = JNull \<or> item = JUndefined)"
  then show "message H inherited now data st = (st, [], Threw)"
    by (auto simp add: message_def handleMessage_def)
next
  fix item stream
  assume "JSON_parse H data = Some item \<and> get item ''stream'' = Some stream \<and> \<not> truthy stream"
  then show "message H inherited now data st = (st, [], Returned)"
    by (simp add: message_def handleMessage_def)
next
  fix item stream
  assume "JSON_parse H data = Some item \<and> get item ''stream'' = Some stream
          \<and> truthy stream \<and> (\<forall>s. stream \<noteq> JStr s)"
  then show "message H inherited now data st = (st, [], Threw)"
    by (cases stream) (simp_all add: message_def handleMessage_def)
next
  fix item s
  assume a: "JSON_parse H data = Some item \<and> get item ''stream'' = Some (JStr s)
          \<and> s \<noteq> [] \<and> CHR ''@'' \<notin> set s"
  then have "split CHR ''@'' s = [s]" by (simp add: split_no_separator)
  with a show "message H inherited now data st = (st, [], Threw)"
    by (simp add: message_def handleMessage_def)
next
  fix item name tail tag
  assume a: "JSON_parse H data = Some item
          \<and> get item ''stream'' = Some (JStr (name @ CHR ''@'' # tail)) \<and> CHR ''@'' \<notin> set name
          \<and> tag = takeWhile (\<lambda>x. x \<noteq> CHR ''_'') (takeWhile (\<lambda>x. x \<noteq> CHR ''@'') tail)"
  then have h: "handleMessage H data = dispatch_by tag (read item ''data'')"
    using handleMessage_tag[of H data item name tail] by simp
  from a have np: "tag \<noteq> ''__proto__''" using tag_not_proto by simp
  {
    assume "tag \<noteq> ''kline'' \<and> tag \<noteq> ''trade'' \<and> tag \<notin> set Object_prototype_functions"
    then show "message H inherited now data st
                    = (st, [Logger_error ''Not supported stream type''], Returned)"
      using h np by (simp add: message_def dispatch_by_def callbacks_def)
  next
    assume "tag \<in> set Object_prototype_functions"
    moreover from this have "tag \<noteq> ''kline''" "tag \<noteq> ''trade''"
      by (auto simp: Object_prototype_functions_def)
    ultimately show "message H inherited now data st = (st, [], inherited)"
      using h by (simp add: message_def dispatch_by_def callbacks_def)
  next
    assume "tag = ''trade''"
    then show "message H inherited now data st = processTrade H now (read item ''data'') st"
      using h by (simp add: message_def dispatch_by_def callbacks_def)
  next
    assume "tag = ''kline''"
    then show "message H inherited now data st = processKline H now (read item ''data'') st"
      using h by (simp add: message_def dispatch_by_def callbacks_def)
  }
next
  show "JSON_parse H data = None
        \<or> (\<exists>item. JSON_parse H data = Some item \<and> (item = JNull \<or> item = JUndefined))
        \<or> (\<exists>item stream. JSON_parse H data = Some item \<and> get item ''stream'' = Some stream
              \<and> (\<not> truthy stream
                  \<or> (truthy stream \<and> (\<forall>s. stream \<noteq> JStr s))
                  \<or> (\<exists>s. stream = JStr s \<and> s \<noteq> [] \<and> CHR ''@'' \<notin> set s)
                  \<or> (\<exists>name tail. stream = JStr (name @ CHR ''@'' # tail)
                        \<and> CHR ''@'' \<notin> set name)))"
  proof (cases "JSON_parse H data")
    case None
    then show ?thesis by simp
  next
    case (Some item)
    show ?thesis
    proof (cases "get item ''stream''")
      case None
      then have "item = JNull \<or> item = JUndefined" by (cases item) simp_all
      with Some show ?thesis by simp
    next
      case (Some stream)
      note g = this
      have "\<not> truthy stream
                  \<or> (truthy stream \<and> (\<forall>s. stream \<noteq> JStr s))
                  \<or> (\<exists>s. stream = JStr s \<and> s \<noteq> [] \<and> CHR ''@'' \<notin> set s)
                  \<or> (\<exists>name tail. stream = JStr (name @ CHR ''@'' # tail)
                        \<and> CHR ''@'' \<notin> set name)"
      proof (cases "\<exists>s. stream = JStr s")
        case False
        then show ?thesis by blast
      next
        case True
        then obtain s where s: "stream = JStr s" by blast
        show ?thesis
        proof (cases "CHR ''@'' \<in> set s")
          case True
          from first_separator[OF this] s show ?thesis by blast
        next
          case False
          with s show ?thesis by (cases "s = []") simp_all
        qed
      qed
      with \<open>JSON_parse H data = Some item\<close> g show ?thesis by blast
    qed
  qed
qed

theorem dispatcher_drops_every_frame_without_trade_or_kline_tag_witness:
  \<open>message example_host Returned 0 ''not json'' initial_state = (initial_state, [], Threw)
   \<and> message example_host Returned 0 ''null'' initial_state = (initial_state, [], Threw)
   \<and> message example_host Returned 0 ''{"data":{}}'' initial_state = (initial_state, [], Returned)
   \<and> message example_host Returned 0 ''{"stream":"btcusdt@depth","data":{}}'' initial_state
       = (initial_state, [Logger_error ''Not supported stream type''], Returned)\<close>
proof -
  have 1: \<open>JSON_parse example_host ''not json'' = None\<close>
    by (simp add: example_host_def example_parse_def example_envelope_def example_payload_def)
  have n: \<open>JSON_parse example_host ''null'' = Some JNull \<and> (JNull = JNull \<or> JNull = JUndefined)\<close>
    by (simp add: example_host_def example_parse_def example_envelope_def example_payload_def)
  have e: \<open>JSON_parse example_host ''{"data":{}}'' = Some (JObj [(''data'', JObj [])])
            \<and> get (JObj [(''data'', JObj [])]) ''stream'' = Some JUndefined
            \<and> \<not> truthy JUndefined\<close>
    by (simp add: example_host_def example_parse_def example_envelope_def example_payload_def
        field_def)
  have 2: \<open>JSON_parse example_host ''{"stream":"btcusdt@depth","data":{}}''
            = Some (JObj [(''stream'', JStr ''btcusdt@depth''), (''data'', JObj [])])\<close>
    by (simp add: example_host_def example_parse_def example_envelope_def example_payload_def)
  have 3: "get (JObj [(''stream'', JStr ''btcusdt@depth''), (''data'', JObj [])]) ''stream''
            = Some (JStr (''btcusdt'' @ CHR ''@'' # ''depth''))"
    by (simp add: field_def)
  have 4: "''depth'' = takeWhile (\<lambda>x. x \<noteq> CHR ''_'') (takeWhile (\<lambda>x. x \<noteq> CHR ''@'') ''depth'')"
    by simp
  have 5: "''depth'' \<noteq> ''kline'' \<and> ''depth'' \<noteq> ''trade'' \<and> ''depth'' \<notin> set Object_prototype_functions"
    by (simp add: Object_prototype_functions_def)
  have 6: "CHR ''@'' \<notin> set ''btcusdt''" by simp
  note pre = conjI[OF 2 conjI[OF 3 conjI[OF 6 4]]]
  have a: \<open>message example_host Returned 0 ''not json'' initial_state = (initial_state, [], Threw)\<close>
    by (rule dispatcher_drops_every_frame_without_trade_or_kline_tag
              [THEN conjunct1, rule_format, OF 1])
  have b: \<open>message example_host Returned 0 ''null'' initial_state = (initial_state, [], Threw)\<close>
    by (rule dispatcher_drops_every_frame_without_trade_or_kline_tag
              [THEN conjunct2, THEN conjunct1, rule_format, OF n])
  have c: \<open>message example_host Returned 0 ''{"data":{}}'' initial_state = (initial_state, [], Returned)\<close>
    by (rule dispatcher_drops_every_frame_without_trade_or_kline_tag
              [THEN conjunct2, THEN conjunct2, THEN conjunct1, rule_format, OF e])
  have d: \<open>message example_host Returned 0 ''{"stream":"btcusdt@depth","data":{}}'' initial_state
       = (initial_state, [Logger_error ''Not supported stream type''], Returned)\<close>
    by (rule dispatcher_drops_every_frame_without_trade_or_kline_tag
              [THEN conjunct2, THEN conjunct2, THEN conjunct2, THEN conjunct2, THEN conjunct2,
               THEN conjunct1, rule_format, OF pre, THEN conjunct1, rule_format, OF 5])
  from a b c d show ?thesis by (intro conjI)
qed

text \<open>
  C9 as stated fails: the frame below has the tag \<^verbatim>\<open>trade\<close> and a \<^verbatim>\<open>data\<close> object
  without any of the required fields, and its event is enqueued and written to the
  cache.
\<close>

theorem frame_without_fields_reaches_both_sinks:
  \<open>snd (message example_host Returned 0 ''{"stream":"btcusdt@trade","data":{}}'' initial_state)
     = ([SendQueue ''{"subId":1,"exchange":"binance","price":null,"quantity":null}'' 0 0 Trade,
         Multi ''trade:undefined:binance'' JUndefined
           ''{"subId":1,"exchange":"binance","price":null,"quantity":null}'' 0 (0 - 3600000)],
        Returned)\<close>
proof -
  have 2: \<open>JSON_parse example_host ''{"stream":"btcusdt@trade","data":{}}''
            = Some (JObj [(''stream'', JStr ''btcusdt@trade''), (''data'', JObj [])])\<close>
    by (simp add: example_host_def example_parse_def example_envelope_def example_payload_def)
  have 3: "get (JObj [(''stream'', JStr ''btcusdt@trade''), (''data'', JObj [])]) ''stream''
            = Some (JStr (''btcusdt'' @ CHR ''@'' # ''trade''))"
    by (simp add: field_def)
  have m: \<open>message example_host Returned 0 ''{"stream":"btcusdt@trade","data":{}}'' initial_state
        = processTrade example_host 0 (JObj []) initial_state\<close>
    using handleMessage_tag[OF 2 3]
    by (simp add: message_def dispatch_by_def callbacks_def field_def read_def)
  obtain sta where loop:
    "sample_intervals example_host JUndefined NaN intervals initial_state = (sta, Returned)"
    using sample_intervals_spec[OF _ distinct_intervals initial_cells_convert, of example_host JUndefined NaN NaN]
    by simp
  have pf: "parseFloat example_host JUndefined = Some NaN"
    by (simp add: parseFloat_def example_host_def example_number_def)
  show ?thesis
    unfolding m using loop pf
    by (simp add: processTrade_def Let_def read_def field_def tradeObject_def
        example_host_def example_stringify_def)
qed

subsection \<open>Sampling by a kline\<close>

lemma find_interval:
  assumes "n \<in> set ivs" and "n \<noteq> NaN"
  shows "find (\<lambda>interval. strict_equal interval (JNum n)) ivs = Some n"
  using assms by (induction ivs) (auto simp: num_eq_def)

lemma find_no_interval:
  assumes "\<not> (\<exists>n\<in>set ivs. v = JNum n)"
  shows "find (\<lambda>interval. strict_equal interval v) ivs = None"
proof -
  have "\<not> strict_equal interval v" if "interval \<in> set ivs" for interval
    using that assms by (cases v) (auto simp: num_eq_def)
  then show ?thesis by (simp add: find_None_iff)
qed

lemma kline_extrema_outside:
  assumes "\<not> (\<exists>n\<in>set intervals. read klineData ''i'' = JNum n)"
  shows "kline_extrema H klineData st = (st, Returned)"
  using find_no_interval[OF assms] by (simp add: kline_extrema_def)

lemma kline_extrema_inside:
  assumes "n \<in> set intervals" and "read klineData ''i'' = JNum n"
    and "js_greater H (read klineData ''h'') (cell (highPrices st) n) = Some higher"
    and "js_less H (read klineData ''l'') (cell (lowPrices st) n) = Some lower"
  shows "kline_extrema H klineData st =
           (st\<lparr>highPrices := (if higher then (highPrices st)(n \<mapsto> read klineData ''h'')
                                else highPrices st),
               lowPrices := (if lower then (lowPrices st)(n \<mapsto> read klineData ''l'')
                               else lowPrices st)\<rparr>,
            Returned)"
proof -
  have "n \<noteq> NaN" using assms(1) NaN_notin_intervals by auto
  from find_interval[OF assms(1) this] assms(2,3,4)
  show ?thesis by (auto simp: kline_extrema_def Let_def)
qed

lemma processKline_state:
  assumes "get kline ''k'' = Some klineData" and "get klineData ''t'' = Some eventTime"
    and "klineObject H kline klineData = Some object"
  shows "fst (processKline H now kline st) = fst (kline_extrema H klineData st)"
  using assms
  by (simp add: processKline_def Let_def split: option.splits prod.splits completion.splits)

text \<open>
  The guard of \<^verbatim>\<open>processKline\<close>: the kline's interval label must be strictly equal to
  a member of the interval set, which are numbers. For such a label \<open>n\<close> the call changes
  the entries of \<open>n\<close> only: the high becomes the raw \<^verbatim>\<open>h\<close> when \<^verbatim>\<open>h > high\<close>, the low
  becomes the raw \<^verbatim>\<open>l\<close> when \<^verbatim>\<open>l < low\<close>. For any other label it changes nothing.
\<close>

lemma processKline_samples_by_label:
  assumes "get kline ''k'' = Some klineData" and "get klineData ''t'' = Some eventTime"
    and "klineObject H kline klineData = Some object"
  shows "(\<not> (\<exists>n\<in>set intervals. read klineData ''i'' = JNum n)
            \<longrightarrow> fst (processKline H now kline st) = st)
       \<and> (\<forall>n higher lower.
             n \<in> set intervals \<and> read klineData ''i'' = JNum n
           \<and> js_greater H (read klineData ''h'') (cell (highPrices st) n) = Some higher
           \<and> js_less H (read klineData ''l'') (cell (lowPrices st) n) = Some lower
           \<longrightarrow> fst (processKline H now kline st)
                 = st\<lparr>highPrices := (if higher then (highPrices st)(n \<mapsto> read klineData ''h'')
                                      else highPrices st),
                      lowPrices := (if lower then (lowPrices st)(n \<mapsto> read klineData ''l'')
                                     else lowPrices st)\<rparr>)"
  using kline_extrema_outside[of klineData H st] kline_extrema_inside[of _ klineData H st]
    processKline_state[OF assms, of now st]
  by auto

lemma example_kline_parts:
  "get (example_kline i h l) ''k''
     = Some (JObj [(''t'', JNum (Fin 1000)), (''T'', JNum (Fin 1000)),
                   (''s'', JStr ''BTCUSDT''), (''i'', i), (''h'', h), (''l'', l)])"
  "get (JObj [(''t'', JNum (Fin 1000)), (''T'', JNum (Fin 1000)),
                   (''s'', JStr ''BTCUSDT''), (''i'', i), (''h'', h), (''l'', l)]) ''t''
     = Some (JNum (Fin 1000))"
  "read (JObj [(''t'', JNum (Fin 1000)), (''T'', JNum (Fin 1000)),
                   (''s'', JStr ''BTCUSDT''), (''i'', i), (''h'', h), (''l'', l)]) ''i'' = i"
  "read (JObj [(''t'', JNum (Fin 1000)), (''T'', JNum (Fin 1000)),
                   (''s'', JStr ''BTCUSDT''), (''i'', i), (''h'', h), (''l'', l)]) ''h'' = h"
  "read (JObj [(''t'', JNum (Fin 1000)), (''T'', JNum (Fin 1000)),
                   (''s'', JStr ''BTCUSDT''), (''i'', i), (''h'', h), (''l'', l)]) ''l'' = l"
  by (simp_all add: example_kline_def field_def read_def)

lemma example_klineObject:
  assumes "ToString H h \<noteq> None" and "ToString H l \<noteq> None"
  shows "klineObject H (example_kline i h l)
           (JObj [(''t'', JNum (Fin 1000)), (''T'', JNum (Fin 1000)),
                   (''s'', JStr ''BTCUSDT''), (''i'', i), (''h'', h), (''l'', l)]) \<noteq> None"
  using assms
  by (auto simp add: klineObject_def parseFloat_def read_def field_def)

text \<open>The state after \<^verbatim>\<open>processKline\<close> on an example kline with primitive high and low.\<close>

lemma example_kline_state:
  assumes "ToString H h \<noteq> None" and "ToString H l \<noteq> None"
  shows "fst (processKline H now (example_kline i h l) st)
           = fst (kline_extrema H (JObj [(''t'', JNum (Fin 1000)), (''T'', JNum (Fin 1000)),
                   (''s'', JStr ''BTCUSDT''), (''i'', i), (''h'', h), (''l'', l)]) st)"
proof -
  from example_klineObject[OF assms, of i] obtain object where
    "klineObject H (example_kline i h l)
           (JObj [(''t'', JNum (Fin 1000)), (''T'', JNum (Fin 1000)),
                   (''s'', JStr ''BTCUSDT''), (''i'', i), (''h'', h), (''l'', l)]) = Some object"
    by blast
  from processKline_state[OF example_kline_parts(1) example_kline_parts(2) this]
  show ?thesis .
qed

text \<open>A kline whose label is a text, as every label of the exchange is, changes nothing.\<close>

lemma kline_with_text_label_changes_nothing:
  assumes "\<forall>klineData. get kline ''k'' = Some klineData \<longrightarrow> (\<exists>s. read klineData ''i'' = JStr s)"
  shows "fst (processKline H now kline st) = st"
proof (cases "get kline ''k''")
  case None
  then show ?thesis by (simp add: processKline_def)
next
  case (Some kd)
  note k = this
  show ?thesis
  proof (cases "get kd ''t''")
    case None
    then show ?thesis using k by (simp add: processKline_def)
  next
    case (Some eventTime)
    note t = this
    show ?thesis
    proof (cases "klineObject H kline kd")
      case None
      then show ?thesis using k t by (simp add: processKline_def)
    next
      case (Some object)
      from assms k obtain s where "read kd ''i'' = JStr s" by blast
      then have "kline_extrema H kd st = (st, Returned)"
        by (simp add: kline_extrema_outside)
      with processKline_state[OF k t Some, of now st] show ?thesis by simp
    qed
  qed
qed

text \<open>
  C3. The claim: on every kline event the tracker samples, unconditionally, the interval
  named by the kline's interval label, and moves the running high or low to the reported
  value when that widens the extrema. In the code the update sits behind
  \<^verbatim>\<open>intervals.findIndex((interval) => interval === klineData.i)\<close>, which compares the
  label with the numbers of seconds of the interval set. A kline as the exchange sends
  it, with the label \<^verbatim>\<open>"1m"\<close>, the high \<^verbatim>\<open>"101.0"\<close> and the low \<^verbatim>\<open>"99.0"\<close>, leaves
  the whole state as it was at process start, although its low is below the low held for
  the interval of 60 seconds; so does the same kline under the label \<^verbatim>\<open>"60"\<close>.
\<close>

theorem kline_with_exchange_label_is_not_sampled:
  "fst (processKline example_host 0 (example_kline (JStr ''1m'') (JStr ''101.0'') (JStr ''99.0''))
          initial_state) = initial_state
   \<and> fst (processKline example_host 0 (example_kline (JStr ''60'') (JStr ''101.0'') (JStr ''99.0''))
          initial_state) = initial_state
   \<and> js_less example_host (JStr ''99.0'') (cell (lowPrices initial_state) (Fin 60)) = Some True"
proof -
  have c: "cell (lowPrices initial_state) (Fin 60) = JNum PosInf"
    using initial_cells[of "Fin 60"] by (simp add: intervals_def)
  have "fst (processKline example_host 0 (example_kline (JStr s) (JStr ''101.0'') (JStr ''99.0''))
          initial_state) = initial_state" for s
    by (rule kline_with_text_label_changes_nothing) (simp add: example_kline_parts)
  moreover have "js_less example_host (JStr ''99.0'') (cell (lowPrices initial_state) (Fin 60)) = Some True"
    by (simp add: c js_less_def example_host_def example_number_def)
  ultimately show ?thesis by simp
qed

subsection \<open>Extrema over a run of klines\<close>

lemma example_kline_step:
  assumes "n \<in> set intervals"
    and "js_greater H h (cell (highPrices st) n) = Some higher"
    and "js_less H l (cell (lowPrices st) n) = Some lower"
    and "ToString H h \<noteq> None" and "ToString H l \<noteq> None"
  shows "fst (processKline H now (example_kline (JNum n) h l) st)
           = st\<lparr>highPrices := (if higher then (highPrices st)(n \<mapsto> h) else highPrices st),
                lowPrices := (if lower then (lowPrices st)(n \<mapsto> l) else lowPrices st)\<rparr>"
  using example_kline_state[OF assms(4,5), of now "JNum n" st]
    kline_extrema_inside[OF assms(1), of _ H st higher lower] assms(2,3)
  by (simp add: example_kline_parts)

text \<open>
  C5. The claim: the tracked high never falls and the tracked low never rises, and two
  klines of one interval with the highs 101.0 and 99.0 leave the tracked high at 101.0.
  In the code, started at process start on the interval of 60 seconds:
  \<^item> after klines with the highs 101 and 99 the tracked high is still its initial value,
    positive infinity, which no reported high exceeds;
  \<^item> the same two klines under the label \<^verbatim>\<open>"1m"\<close> leave the whole state as it was;
  \<^item> klines with the lows \<^verbatim>\<open>"101.0"\<close> and then \<^verbatim>\<open>"1000"\<close>, as texts, leave the
    tracked low at \<^verbatim>\<open>"101.0"\<close> and then at \<^verbatim>\<open>"1000"\<close>: the comparison of the raw
    values is one of texts, and the tracked low has risen.
\<close>

theorem two_klines_leave_high_at_infinity:
  "cell (highPrices (after_klines example_host
           [(0, example_kline (JNum (Fin 60)) (JNum (Fin 101)) (JNum (Fin 100))),
            (1, example_kline (JNum (Fin 60)) (JNum (Fin 99)) (JNum (Fin 98)))]
           initial_state)) (Fin 60) = JNum PosInf
   \<and> after_klines example_host
           [(0, example_kline (JStr ''1m'') (JNum (Fin 101)) (JNum (Fin 100))),
            (1, example_kline (JStr ''1m'') (JNum (Fin 99)) (JNum (Fin 98)))]
           initial_state = initial_state
   \<and> cell (lowPrices (after_klines example_host
           [(0, example_kline (JNum (Fin 60)) (JStr ''101.0'') (JStr ''101.0''))]
           initial_state)) (Fin 60) = JStr ''101.0''
   \<and> cell (lowPrices (after_klines example_host
           [(0, example_kline (JNum (Fin 60)) (JStr ''101.0'') (JStr ''101.0'')),
            (1, example_kline (JNum (Fin 60)) (JStr ''1000'') (JStr ''1000''))]
           initial_state)) (Fin 60) = JStr ''1000''"
proof -
  have n: "Fin 60 \<in> set intervals" by (simp add: intervals_def)
  have c: "cell (highPrices initial_state) (Fin 60) = JNum PosInf"
          "cell (lowPrices initial_state) (Fin 60) = JNum PosInf"
    using initial_cells[of "Fin 60"] n by simp_all
  have num: "fst (processKline example_host now (example_kline (JNum (Fin 60)) (JNum (Fin h)) (JNum (Fin l))) st)
      = st\<lparr>lowPrices := (lowPrices st)(Fin 60 \<mapsto> JNum (Fin l))\<rparr>"
    if "cell (highPrices st) (Fin 60) = JNum PosInf" and "cell (lowPrices st) (Fin 60) = JNum b"
      and "num_less (Fin l) b" for now h l st b
    using example_kline_step[OF n, of example_host "JNum (Fin h)" st False "JNum (Fin l)" True now] that
    by (simp add: js_greater_def js_less_def)
  have a: "cell (highPrices (after_klines example_host
           [(0, example_kline (JNum (Fin 60)) (JNum (Fin 101)) (JNum (Fin 100))),
            (1, example_kline (JNum (Fin 60)) (JNum (Fin 99)) (JNum (Fin 98)))]
           initial_state)) (Fin 60) = JNum PosInf"
    using c by (simp add: num[where b = PosInf] num[where b = "Fin 100"])
  have out: "fst (processKline example_host now (example_kline (JStr s) (JNum (Fin h)) (JNum (Fin l))) st) = st"
    for now s h l st
    using example_kline_state[of example_host "JNum (Fin h)" "JNum (Fin l)" now "JStr s" st]
    by (simp add: kline_extrema_outside example_kline_parts)
  have b: "after_klines example_host
           [(0, example_kline (JStr ''1m'') (JNum (Fin 101)) (JNum (Fin 100))),
            (1, example_kline (JStr ''1m'') (JNum (Fin 99)) (JNum (Fin 98)))]
           initial_state = initial_state"
    by (simp add: out)
  have s1: "fst (processKline example_host 0 (example_kline (JNum (Fin 60)) (JStr ''101.0'') (JStr ''101.0'')) initial_state)
      = initial_state\<lparr>lowPrices := (lowPrices initial_state)(Fin 60 \<mapsto> JStr ''101.0'')\<rparr>"
    using example_kline_step[OF n, of example_host "JStr ''101.0''" initial_state False "JStr ''101.0''" True 0] c
    by (simp add: js_greater_def js_less_def example_host_def example_number_def)
  have s2: "fst (processKline example_host 1 (example_kline (JNum (Fin 60)) (JStr ''1000'') (JStr ''1000''))
                  (initial_state\<lparr>lowPrices := (lowPrices initial_state)(Fin 60 \<mapsto> JStr ''101.0'')\<rparr>))
      = initial_state\<lparr>lowPrices := (lowPrices initial_state)(Fin 60 \<mapsto> JStr ''1000'')\<rparr>"
    using example_kline_step[OF n, of example_host "JStr ''1000''"
        "initial_state\<lparr>lowPrices := (lowPrices initial_state)(Fin 60 \<mapsto> JStr ''101.0'')\<rparr>"
        False "JStr ''1000''" True 1] c
    by (simp add: js_greater_def js_less_def example_host_def example_number_def)
  show ?thesis using a b by (simp add: s1 s2)
qed

subsection \<open>The channel after append and prune\<close>

lemma processTrade_Multi_bounds:
  assumes "processTrade H now trade st = (st', effs, c)" and "Multi ch sc mem lo hi \<in> set effs"
  shows "lo = 0 \<and> hi = now - 3600000"
  using assms
  by (auto simp: processTrade_def Let_def split: option.splits prod.splits completion.splits)

lemma processKline_Multi_bounds:
  assumes "processKline H now kline st = (st', effs, c)" and "Multi ch sc mem lo hi \<in> set effs"
  shows "lo = 0 \<and> hi = now - 3600000"
  using assms
  by (auto simp: processKline_def Let_def split: option.splits prod.splits completion.splits)

text \<open>
  C8, as the code has it. Both paths prune with \<^verbatim>\<open>zremrangebyscore(channel, 0, cutoff)\<close>,
  where \<open>cutoff\<close> is \<^verbatim>\<open>Date.now()\<close> less one hour. After the transaction the channel
  has no entry whose score lies from 0 to the cutoff; so an entry that is left and has a
  score of at least 0 is newer than the cutoff. An entry with a score below 0 is not
  pruned.
\<close>

theorem channel_has_no_score_from_zero_to_cutoff:
  "(\<forall>e\<in>set (multi_exec score member 0 (now - 3600000) z).
       \<not> (num_le (Fin 0) (snd e) \<and> num_le (snd e) (Fin (of_int (now - 3600000))))
     \<and> (num_le (Fin 0) (snd e) \<longrightarrow> num_less (Fin (of_int (now - 3600000))) (snd e)))
   \<and> (\<forall>st st' effs c ch sc mem lo hi.
         processTrade H now trade st = (st', effs, c) \<and> Multi ch sc mem lo hi \<in> set effs
         \<longrightarrow> lo = 0 \<and> hi = now - 3600000)
   \<and> (\<forall>st st' effs c ch sc mem lo hi.
         processKline H now kline st = (st', effs, c) \<and> Multi ch sc mem lo hi \<in> set effs
         \<longrightarrow> lo = 0 \<and> hi = now - 3600000)"
proof -
  have "\<not> (num_le (Fin 0) s \<and> num_le s (Fin (of_int (now - 3600000))))
        \<and> (num_le (Fin 0) s \<longrightarrow> num_less (Fin (of_int (now - 3600000))) s)"
    if "(m, s) \<in> set (multi_exec score member 0 (now - 3600000) z)" for m s
  proof -
    from that have 1: "\<not> (num_le (Fin 0) s \<and> num_le s (Fin (of_int (now - 3600000))))"
      by (auto simp: multi_exec_def zremrangebyscore_def)
    then have "num_le (Fin 0) s \<longrightarrow> num_less (Fin (of_int (now - 3600000))) s"
      by (cases s) (auto simp: num_le_def num_eq_def)
    with 1 show ?thesis by blast
  qed
  then show ?thesis
    using processTrade_Multi_bounds processKline_Multi_bounds by (auto simp del: of_int_diff)
qed

theorem channel_has_no_score_from_zero_to_cutoff_witness:
  "(''old'', Fin 100) \<notin> set (multi_exec (Fin 9999000) ''new'' 0 (10000000 - 3600000) [(''old'', Fin 100)])"
proof
  assume "(''old'', Fin 100) \<in> set (multi_exec (Fin 9999000) ''new'' 0 (10000000 - 3600000) [(''old'', Fin 100)])"
  from channel_has_no_score_from_zero_to_cutoff[of "Fin 9999000" "''new''" 10000000 "[(''old'', Fin 100)]",
        THEN conjunct1, rule_format, OF this]
  show False by (simp add: num_le_def)
qed

text \<open>
  C8 as stated fails: an entry with a score below 0 is older than the cutoff and stays
  in the channel.
\<close>

theorem entry_with_negative_score_is_not_pruned:
  "multi_exec (Fin 10000000) ''new'' 0 (10000000 - 3600000) [(''old'', Fin (- 1))]
     = [(''new'', Fin 10000000), (''old'', Fin (- 1))]
   \<and> num_less (Fin (- 1)) (Fin (of_int (10000000 - 3600000)))"
  by (simp add: multi_exec_def zadd_def zremrangebyscore_def num_le_def num_eq_def)

subsection \<open>What the module stores converts to a number\<close>

lemma ToPrimitive_ToNumber:
  assumes "ToPrimitive H v \<noteq> None"
  shows "ToNumber H v \<noteq> None"
  using assms by (cases v) auto

lemma js_less_ToNumber:
  assumes "js_less H a b = Some r"
  shows "ToNumber H a \<noteq> None \<and> ToNumber H b \<noteq> None"
  using assms ToPrimitive_ToNumber[of H a] ToPrimitive_ToNumber[of H b]
  by (auto simp: js_less_def split: option.splits)

text \<open>
  The hypothesis of the trade path on the stored extrema holds at process start and is
  kept by \<^verbatim>\<open>processTrade\<close> and by \<^verbatim>\<open>processKline\<close>, whatever the event is.
\<close>

lemma processTrade_keeps_convertible:
  assumes "\<forall>i\<in>set intervals. ToNumber H (cell (highPrices st) i) \<noteq> None
                          \<and> ToNumber H (cell (lowPrices st) i) \<noteq> None"
  shows "\<forall>i\<in>set intervals. ToNumber H (cell (highPrices (fst (processTrade H now trade st))) i) \<noteq> None
                          \<and> ToNumber H (cell (lowPrices (fst (processTrade H now trade st))) i) \<noteq> None"
proof (cases "get trade ''E'' = None \<or> parseFloat H (read trade ''p'') = None")
  case True
  then show ?thesis using assms by (simp add: processTrade_state_throw)
next
  case False
  then obtain timestamp price where E: "get trade ''E'' = Some timestamp"
    and p: "parseFloat H (read trade ''p'') = Some price" by auto
  note st = processTrade_state[OF E p, of now st]
  show ?thesis
  proof (cases "ToNumber H timestamp")
    case None
    then have "sample_intervals H timestamp price intervals st = (st, Threw)"
      by (simp add: intervals_def)
    with st assms show ?thesis by simp
  next
    case (Some t)
    from sample_intervals_spec[OF Some distinct_intervals assms, of price] st assms
    show ?thesis by (auto simp: cell_def)
  qed
qed

lemma processKline_keeps_convertible:
  assumes "\<forall>i\<in>set intervals. ToNumber H (cell (highPrices st) i) \<noteq> None
                          \<and> ToNumber H (cell (lowPrices st) i) \<noteq> None"
  shows "\<forall>i\<in>set intervals. ToNumber H (cell (highPrices (fst (processKline H now kline st))) i) \<noteq> None
                          \<and> ToNumber H (cell (lowPrices (fst (processKline H now kline st))) i) \<noteq> None"
proof -
  have ke: "\<forall>i\<in>set intervals. ToNumber H (cell (highPrices (fst (kline_extrema H kd st))) i) \<noteq> None
                          \<and> ToNumber H (cell (lowPrices (fst (kline_extrema H kd st))) i) \<noteq> None" for kd
    using assms js_less_ToNumber[of H _ "read kd ''h''"] js_less_ToNumber[of H "read kd ''l''"]
    by (auto simp: kline_extrema_def Let_def js_greater_def split: option.splits)
  show ?thesis
  proof (cases "get kline ''k''")
    case None
    then show ?thesis using assms by (simp add: processKline_def)
  next
    case (Some kd)
    note k = this
    show ?thesis
    proof (cases "get kd ''t''")
      case None
      then show ?thesis using assms k by (simp add: processKline_def)
    next
      case (Some eventTime)
      note t = this
      show ?thesis
      proof (cases "klineObject H kline kd")
        case None
        then show ?thesis using assms k t by (simp add: processKline_def)
      next
        case (Some object)
        from processKline_state[OF k t Some, of now st] ke[of kd]
        show ?thesis by simp
      qed
    qed
  qed
qed

end
